theory Spec2Isabelle
  imports Main
begin

section \<open>Data model (types.ts)\<close>

text \<open>
  JavaScript strings are modelled as lists of characters, one \<^typ>\<open>char\<close> per code unit
  in the range 0..255. The three enums of \<^verbatim>\<open>types.ts\<close> are datatypes; an optional
  property (\<^verbatim>\<open>name?: T\<close>) is an \<^typ>\<open>'a option\<close>, with \<^term>\<open>None\<close> for
  \<^verbatim>\<open>undefined\<close>.
\<close>

datatype CreativeFormat = SQUARE | HORIZONTAL | VERTICAL

datatype CreativeType = IMAGE | VIDEO

datatype FontStyle = MODERN | BOLD | HANDWRITTEN | ELEGANT | PLAYFUL

datatype ProductImage = ProductImage (mimeType: string) (data: string)

record UserInputs =
  productDescription :: string
  productImage :: "ProductImage option"
  productUrl :: "string option"
  creativeFormat :: CreativeFormat
  creativeType :: CreativeType
  hookText :: "string option"
  fontStyle :: "FontStyle option"

section \<open>JSON values and \<^verbatim>\<open>JSON.parse\<close>\<close>

text \<open>
  \<^verbatim>\<open>generateAdCopy\<close> and \<^verbatim>\<open>proofreadAdCopy\<close> return whatever \<^verbatim>\<open>JSON.parse\<close>
  yields, cast to \<^verbatim>\<open>AdCopy[]\<close> without any check, so the values that flow through the
  pipeline are arbitrary JSON values. Strings inside JSON are lists of UTF-16 code
  units (a \<^verbatim>\<open>\uXXXX\<close> escape may denote any of them); a number keeps its decimal
  mantissa and exponent, \<open>JNumber m e\<close> standing for \<open>m * 10 ^ e\<close>; an object keeps its
  members in source order, duplicates included.
\<close>

type_synonym jsstring = "nat list"

datatype json =
    JNull
  | JBool bool
  | JNumber int int
  | JString jsstring
  | JArray "json list"
  | JObject "(jsstring \<times> json) list"

text \<open>
  \<open>JSON_parse\<close> is the built-in \<^verbatim>\<open>JSON.parse\<close> on a text: \<^term>\<open>None\<close> when it
  throws a SyntaxError. The grammar is that of ECMA-404: the four white-space
  characters, the three literals, numbers without leading zeros, strings without raw
  control characters, arrays and objects without trailing commas. The recursion
  carries a bound, twice the length of the text and two more: every nested value and
  every further element or member takes at least one character of the text.
\<close>

definition json_ws :: "char \<Rightarrow> bool" where
  "json_ws c = (of_char c \<in> {32, 9, 10, 13 :: nat})"

definition skip_ws :: "string \<Rightarrow> string" where
  "skip_ws cs = dropWhile json_ws cs"

definition is_digit :: "char \<Rightarrow> bool" where
  "is_digit c = (48 \<le> (of_char c :: nat) \<and> (of_char c :: nat) \<le> 57)"

definition digits_val :: "string \<Rightarrow> nat" where
  "digits_val ds = foldl (\<lambda>a c. 10 * a + (of_char c - 48)) 0 ds"

definition hex_val :: "char \<Rightarrow> nat option" where
  "hex_val c =
     (let k = (of_char c :: nat) in
      if 48 \<le> k \<and> k \<le> 57 then Some (k - 48)
      else if 65 \<le> k \<and> k \<le> 70 then Some (k - 55)
      else if 97 \<le> k \<and> k \<le> 102 then Some (k - 87)
      else None)"

definition escape_unit :: "char \<Rightarrow> nat option" where
  "escape_unit e =
     (if e = CHR 0x22 then Some 34
      else if e = CHR 0x5C then Some 92
      else if e = CHR ''/'' then Some 47
      else if e = CHR ''b'' then Some 8
      else if e = CHR ''f'' then Some 12
      else if e = CHR ''n'' then Some 10
      else if e = CHR ''r'' then Some 13
      else if e = CHR ''t'' then Some 9
      else None)"

fun parse_chars :: "string \<Rightarrow> (nat list \<times> string) option" where
  "parse_chars [] = None"
| "parse_chars (c # cs) =
     (if c = CHR 0x22 then Some ([], cs)
      else if c = CHR 0x5C then
        (case cs of
           [] \<Rightarrow> None
         | e # r \<Rightarrow>
             if e = CHR ''u'' then
               (case r of
                  h1 # h2 # h3 # h4 # r' \<Rightarrow>
                    (case (hex_val h1, hex_val h2, hex_val h3, hex_val h4) of
                       (Some a, Some b, Some c', Some d) \<Rightarrow>
                         (case parse_chars r' of
                            None \<Rightarrow> None
                          | Some (us, rest) \<Rightarrow> Some ((((a * 16 + b) * 16 + c') * 16 + d) # us, rest))
                     | _ \<Rightarrow> None)
                | _ \<Rightarrow> None)
             else
               (case escape_unit e of
                  None \<Rightarrow> None
                | Some u \<Rightarrow>
                    (case parse_chars r of
                       None \<Rightarrow> None
                     | Some (us, rest) \<Rightarrow> Some (u # us, rest))))
      else if (of_char c :: nat) < 32 then None
      else
        (case parse_chars cs of
           None \<Rightarrow> None
         | Some (us, rest) \<Rightarrow> Some (of_char c # us, rest)))"

definition parse_number :: "string \<Rightarrow> (json \<times> string) option" where
  "parse_number cs =
     (let neg = (cs \<noteq> [] \<and> hd cs = CHR ''-'');
          cs1 = (if neg then tl cs else cs);
          ds = takeWhile is_digit cs1;
          cs2 = dropWhile is_digit cs1;
          has_frac = (cs2 \<noteq> [] \<and> hd cs2 = CHR ''.'');
          fs = (if has_frac then takeWhile is_digit (tl cs2) else []);
          cs3 = (if has_frac then dropWhile is_digit (tl cs2) else cs2);
          has_exp = (cs3 \<noteq> [] \<and> (hd cs3 = CHR ''e'' \<or> hd cs3 = CHR ''E''));
          cs4 = (if has_exp then tl cs3 else cs3);
          eneg = (has_exp \<and> cs4 \<noteq> [] \<and> hd cs4 = CHR ''-'');
          cs5 = (if has_exp \<and> cs4 \<noteq> [] \<and> (hd cs4 = CHR ''-'' \<or> hd cs4 = CHR ''+'') then tl cs4 else cs4);
          es = (if has_exp then takeWhile is_digit cs5 else []);
          cs6 = (if has_exp then dropWhile is_digit cs5 else cs5);
          m = int (digits_val (ds @ fs));
          x = int (digits_val es)
      in if ds = [] \<or> (1 < length ds \<and> hd ds = CHR ''0'') then None
         else if has_frac \<and> fs = [] then None
         else if has_exp \<and> es = [] then None
         else Some (JNumber (if neg then - m else m) ((if eneg then - x else x) - int (length fs)), cs6))"

fun parse_value :: "nat \<Rightarrow> string \<Rightarrow> (json \<times> string) option"
  and parse_elements :: "nat \<Rightarrow> string \<Rightarrow> (json list \<times> string) option"
  and parse_members :: "nat \<Rightarrow> string \<Rightarrow> ((nat list \<times> json) list \<times> string) option"
where
  "parse_value 0 cs = None"
| "parse_value (Suc n) cs =
     (case skip_ws cs of
        [] \<Rightarrow> None
      | c # r \<Rightarrow>
          if c = CHR ''{'' then
            (case skip_ws r of
               [] \<Rightarrow> None
             | c2 # r2 \<Rightarrow>
                 if c2 = CHR ''}'' then Some (JObject [], r2)
                 else (case parse_members n r of
                         None \<Rightarrow> None
                       | Some (ms, r3) \<Rightarrow> Some (JObject ms, r3)))
          else if c = CHR ''['' then
            (case skip_ws r of
               [] \<Rightarrow> None
             | c2 # r2 \<Rightarrow>
                 if c2 = CHR '']'' then Some (JArray [], r2)
                 else (case parse_elements n r of
                         None \<Rightarrow> None
                       | Some (vs, r3) \<Rightarrow> Some (JArray vs, r3)))
          else if c = CHR 0x22 then
            (case parse_chars r of
               None \<Rightarrow> None
             | Some (us, r2) \<Rightarrow> Some (JString us, r2))
          else if take 4 (c # r) = ''null'' then Some (JNull, drop 4 (c # r))
          else if take 4 (c # r) = ''true'' then Some (JBool True, drop 4 (c # r))
          else if take 5 (c # r) = ''false'' then Some (JBool False, drop 5 (c # r))
          else parse_number (c # r))"
| "parse_elements 0 cs = None"
| "parse_elements (Suc n) cs =
     (case parse_value n cs of
        None \<Rightarrow> None
      | Some (v, r) \<Rightarrow>
          (case skip_ws r of
             [] \<Rightarrow> None
           | c # r2 \<Rightarrow>
               if c = CHR '','' then
                 (case parse_elements n r2 of
                    None \<Rightarrow> None
                  | Some (vs, r3) \<Rightarrow> Some (v # vs, r3))
               else if c = CHR '']'' then Some ([v], r2)
               else None))"
| "parse_members 0 cs = None"
| "parse_members (Suc n) cs =
     (case skip_ws cs of
        [] \<Rightarrow> None
      | c # r \<Rightarrow>
          if c = CHR 0x22 then
            (case parse_chars r of
               None \<Rightarrow> None
             | Some (k, r1) \<Rightarrow>
                 (case skip_ws r1 of
                    [] \<Rightarrow> None
                  | c1 # r2 \<Rightarrow>
                      if c1 = CHR '':'' then
                        (case parse_value n r2 of
                           None \<Rightarrow> None
                         | Some (v, r3) \<Rightarrow>
                             (case skip_ws r3 of
                                [] \<Rightarrow> None
                              | c3 # r4 \<Rightarrow>
                                  if c3 = CHR '','' then
                                    (case parse_members n r4 of
                                       None \<Rightarrow> None
                                     | Some (ms, r5) \<Rightarrow> Some ((k, v) # ms, r5))
                                  else if c3 = CHR ''}'' then Some ([(k, v)], r4)
                                  else None))
                      else None))
          else None)"

definition JSON_parse :: "string \<Rightarrow> json option" where
  "JSON_parse t =
     (case parse_value (2 * length t + 2) t of
        None \<Rightarrow> None
      | Some (v, r) \<Rightarrow> if skip_ws r = [] then Some v else None)"

section \<open>JavaScript operations used by the service module\<close>

text \<open>What a rejected promise or a \<^verbatim>\<open>throw\<close> carries.\<close>

datatype error =
    Rejected string
  | TypeError string
  | SyntaxError string
  | Error string

text \<open>Truthiness of an optional string: \<^verbatim>\<open>undefined\<close> and \<^verbatim>\<open>''\<close> are falsy.\<close>

definition truthy :: "string option \<Rightarrow> bool" where
  "truthy x = (case x of None \<Rightarrow> False | Some t \<Rightarrow> t \<noteq> [])"

text \<open>Interpolation \<^verbatim>\<open>${x}\<close> of an optional string into a template literal.\<close>

definition render :: "string option \<Rightarrow> string" where
  "render x = (case x of None \<Rightarrow> ''undefined'' | Some t \<Rightarrow> t)"

text \<open>
  \<^verbatim>\<open>String.prototype.trim\<close>: the white space and line terminators of ECMAScript
  that lie below code unit 256.
\<close>

definition js_whitespace :: "char \<Rightarrow> bool" where
  "js_whitespace c = (of_char c \<in> {9, 10, 11, 12, 13, 32, 160 :: nat})"

definition trim :: "string \<Rightarrow> string" where
  "trim t = rev (dropWhile js_whitespace (rev (dropWhile js_whitespace t)))"

text \<open>
  \<^verbatim>\<open>t.replace(/^"|"$/g, '')\<close>: the global replace deletes a quotation mark at the
  start of \<open>t\<close> and, scanning on from there, a quotation mark at the end.
\<close>

definition strip_quotes :: "string \<Rightarrow> string" where
  "strip_quotes t =
     (let t1 = (case t of [] \<Rightarrow> [] | c # r \<Rightarrow> if c = CHR 0x22 then r else t)
      in if t1 \<noteq> [] \<and> last t1 = CHR 0x22 then butlast t1 else t1)"

text \<open>Decimal rendering of an array index, as in \<^verbatim>\<open>`${index + 1}`\<close>.\<close>

fun string_of_nat :: "nat \<Rightarrow> string" where
  "string_of_nat n =
     (if n < 10 then [''0123456789'' ! n]
      else string_of_nat (n div 10) @ [''0123456789'' ! (n mod 10)])"

declare string_of_nat.simps [simp del]

text \<open>The code units of a string literal of the program.\<close>

definition units :: "string \<Rightarrow> jsstring" where
  "units t = map of_char t"

text \<open>
  A JSON number is the double nearest to its decimal value, so it is \<open>0\<close> when the
  mantissa is, and when the value is at most \<open>2 ^ -1075\<close>, half the least positive
  double.
\<close>

definition number_is_zero :: "int \<Rightarrow> int \<Rightarrow> bool" where
  "number_is_zero m e = (m = 0 \<or> (e < 0 \<and> \<bar>m\<bar> * 2 ^ 1075 \<le> 10 ^ nat (- e)))"

fun js_truthy :: "json \<Rightarrow> bool" where
  "js_truthy JNull = False"
| "js_truthy (JBool b) = b"
| "js_truthy (JNumber m e) = (\<not> number_is_zero m e)"
| "js_truthy (JString t) = (t \<noteq> [])"
| "js_truthy (JArray vs) = True"
| "js_truthy (JObject ms) = True"

text \<open>Property lookup in a parsed object: of duplicate members the last one counts.\<close>

definition js_get :: "(jsstring \<times> json) list \<Rightarrow> jsstring \<Rightarrow> json option" where
  "js_get ms k = map_of (rev ms) k"

text \<open>
  \<^verbatim>\<open>x.length\<close>: a TypeError on \<^verbatim>\<open>null\<close>, \<^verbatim>\<open>undefined\<close> (\<^term>\<open>None\<close>) on a
  boolean, a number and an object without that member.
\<close>

fun js_length :: "json \<Rightarrow> error + json option" where
  "js_length JNull = Inl (TypeError ''Cannot read properties of null (reading length)'')"
| "js_length (JBool b) = Inr None"
| "js_length (JNumber m e) = Inr None"
| "js_length (JString t) = Inr (Some (JNumber (int (length t)) 0))"
| "js_length (JArray vs) = Inr (Some (JNumber (int (length vs)) 0))"
| "js_length (JObject ms) = Inr (js_get ms (units ''length''))"

text \<open>\<^verbatim>\<open>v === 0\<close>.\<close>

fun is_zero :: "json option \<Rightarrow> bool" where
  "is_zero (Some (JNumber m e)) = number_is_zero m e"
| "is_zero v = False"

text \<open>
  \<^verbatim>\<open>x[0]\<close> and \<^verbatim>\<open>x[index % x.length]\<close>: a TypeError on \<^verbatim>\<open>null\<close>. On an
  array and on a string the remainder is taken by the number of elements; a boolean
  and a number have no such property; an object without a
  \<^verbatim>\<open>length\<close> member is read at the key \<^verbatim>\<open>NaN\<close>. For an object with a \<^verbatim>\<open>length\<close>
  member \<open>v\<close> the key is ECMAScript's \<^verbatim>\<open>ToString(index % ToNumber(v))\<close>, which is a
  parameter \<open>rem_key\<close> of the model.
\<close>

fun js_first :: "json \<Rightarrow> error + json option" where
  "js_first (JArray vs) = Inr (case vs of [] \<Rightarrow> None | v # _ \<Rightarrow> Some v)"
| "js_first (JString t) = Inr (case t of [] \<Rightarrow> None | u # _ \<Rightarrow> Some (JString [u]))"
| "js_first (JObject ms) = Inr (js_get ms (units ''0''))"
| "js_first JNull = Inl (TypeError ''Cannot read properties of null (reading 0)'')"
| "js_first v = Inr None"

fun js_at_mod :: "(nat \<Rightarrow> json \<Rightarrow> nat list) \<Rightarrow> json \<Rightarrow> nat \<Rightarrow> error + json option" where
  "js_at_mod rem_key (JArray vs) index =
     Inr (if vs = [] then None else Some (vs ! (index mod length vs)))"
| "js_at_mod rem_key (JString t) index =
     Inr (if t = [] then None else Some (JString [t ! (index mod length t)]))"
| "js_at_mod rem_key (JObject ms) index =
     Inr (case js_get ms (units ''length'') of
            None \<Rightarrow> js_get ms (units ''NaN'')
          | Some v \<Rightarrow> js_get ms (rem_key index v))"
| "js_at_mod rem_key JNull index =
     Inl (TypeError ''Cannot read properties of null (reading length)'')"
| "js_at_mod rem_key v index = Inr None"

text \<open>\<^verbatim>\<open>JSON.parse(x)\<close> on an optional string: \<^verbatim>\<open>undefined\<close> is read as its name.\<close>

definition js_JSON_parse :: "string option \<Rightarrow> error + json" where
  "js_JSON_parse x =
     (case JSON_parse (render x) of
        None \<Rightarrow> Inl (SyntaxError ''Unexpected token'')
      | Some v \<Rightarrow> Inr v)"

section \<open>The generative service and the browser\<close>

text \<open>
  A prompt is a template literal; the model keeps the values that the code
  interpolates into it, in the order in which they occur, and which template it is:
  the product URL (\<^verbatim>\<open>getProductInfo\<close>); the product information
  (\<^verbatim>\<open>generateAdCopy\<close>); the style variation, the product information and the text
  overlay (image editing); the product information, the style variation, whether the
  format is the vertical one and the text overlay (text to image); whether there is a
  product image, the product information and the text overlay (video); the context
  and the text (\<^verbatim>\<open>proofreadText\<close>); the context and the ad copy
  (\<^verbatim>\<open>proofreadAdCopy\<close>). The product information is whatever \<^verbatim>\<open>response.text\<close>
  was, \<^verbatim>\<open>undefined\<close> included. The text overlay is the hook text with the font
  style, present when the hook text is truthy.
\<close>

type_synonym overlay = "(string \<times> FontStyle option) option"

datatype prompt =
    ProductInfoPrompt string
  | AdCopyPrompt "string option"
  | ImageEditPrompt string "string option" overlay
  | ImagePrompt "string option" string bool overlay
  | VideoPrompt bool "string option" overlay
  | ProofreadTextPrompt "string option" string
  | ProofreadAdCopyPrompt "string option" json

text \<open>
  The \<^verbatim>\<open>config\<close> of a \<^verbatim>\<open>generateContent\<close> call: none, the JSON array schema of the
  ad copy, or the image and text response modalities. The responses follow, with the
  properties that the code reads; each of them is optional in the SDK.
\<close>

datatype config = NoConfig | JsonArraySchema | ImageAndTextModalities

datatype InlineData = InlineData (inl_mimeType: "string option") (inl_data: "string option")
datatype Part = Part (inlineData: "InlineData option")
datatype Content = Content (parts: "Part list option")
datatype Candidate = Candidate (content: "Content option")
datatype GenerateContentResponse =
  GenerateContentResponse (resp_text: "string option") (candidates: "Candidate list option")

datatype Image = Image (imageBytes: "string option")
datatype GeneratedImage = GeneratedImage (image: "Image option")
datatype GenerateImagesResponse =
  GenerateImagesResponse (generatedImages: "GeneratedImage list option")

datatype Video = Video (uri: "string option")
datatype GeneratedVideo = GeneratedVideo (video: "Video option")
datatype GenerateVideosResponse =
  GenerateVideosResponse (generatedVideos: "GeneratedVideo list option")
datatype Operation =
  Operation (op_name: string) (op_done: "bool option") (op_response: "GenerateVideosResponse option")

datatype FetchResponse =
  FetchResponse (ok: bool) (statusText: string) (blob: "error + string")

text \<open>
  A request: the call, its prompt and what else of its arguments varies (the image
  part, the configuration, the aspect ratio, the operation polled, the URL fetched).
\<close>

datatype request =
    GenerateContent prompt "ProductImage option" config
  | GenerateImages prompt string
  | GenerateVideos prompt "ProductImage option"
  | GetVideosOperation Operation
  | Fetch string

text \<open>
  The outside world of one run. Every call answers as a function of the request and
  of the number of requests issued before it, so the same request may be answered
  differently each time; \<open>Inl\<close> is a rejected promise. \<open>createObjectURL\<close> and
  \<open>randomUUID\<close> depend on how many such values the browser has handed out.
\<close>

record world =
  ai_generateContent :: "nat \<Rightarrow> request \<Rightarrow> error + GenerateContentResponse"
  ai_generateImages :: "nat \<Rightarrow> request \<Rightarrow> error + GenerateImagesResponse"
  ai_generateVideos :: "nat \<Rightarrow> request \<Rightarrow> error + Operation"
  ai_getVideosOperation :: "nat \<Rightarrow> request \<Rightarrow> error + Operation"
  browser_fetch :: "nat \<Rightarrow> request \<Rightarrow> error + FetchResponse"
  createObjectURL :: "nat \<Rightarrow> string \<Rightarrow> string"
  randomUUID :: "nat \<Rightarrow> string"
  API_KEY :: "string option"
  js_rem_key :: "nat \<Rightarrow> json \<Rightarrow> nat list"

text \<open>
  The state a run threads through: the objects of type \<^verbatim>\<open>UserInputs\<close> by reference
  (\<open>next_ref\<close> is the first reference not yet allocated), the requests issued so far,
  the delays slept, the lines written to the console and the number of fresh browser
  values drawn.
\<close>

record state =
  heap :: "nat \<Rightarrow> UserInputs"
  next_ref :: nat
  requests :: "request list"
  sleeps :: "nat list"
  console :: "string list"
  fresh :: nat

definition issue :: "(nat \<Rightarrow> request \<Rightarrow> error + 'r) \<Rightarrow> request \<Rightarrow> state \<Rightarrow> (error + 'r) \<times> state" where
  "issue api req s = (api (length (requests s)) req, s\<lparr>requests := requests s @ [req]\<rparr>)"

text \<open>\<open>requests.map(req => api(req))\<close>: the calls are started in order.\<close>

fun issue_all :: "(nat \<Rightarrow> request \<Rightarrow> error + 'r) \<Rightarrow> request list \<Rightarrow> state \<Rightarrow> (error + 'r) list \<times> state" where
  "issue_all api [] s = ([], s)"
| "issue_all api (req # reqs) s =
     (case issue api req s of
        (p, s1) \<Rightarrow> (case issue_all api reqs s1 of (ps, s2) \<Rightarrow> (p # ps, s2)))"

text \<open>
  \<^verbatim>\<open>Promise.all\<close>: all the values when every promise is fulfilled, otherwise a
  rejection (of the rejected promises, the model reports the first in the list).
\<close>

fun Promise_all :: "(error + 'r) list \<Rightarrow> error + 'r list" where
  "Promise_all [] = Inr []"
| "Promise_all (Inl e # ps) = Inl e"
| "Promise_all (Inr r # ps) = (case Promise_all ps of Inl e \<Rightarrow> Inl e | Inr rs \<Rightarrow> Inr (r # rs))"

definition console_log :: "string \<Rightarrow> state \<Rightarrow> state" where
  "console_log msg s = s\<lparr>console := console s @ [msg]\<rparr>"

definition alloc :: "UserInputs \<Rightarrow> state \<Rightarrow> nat \<times> state" where
  "alloc obj s = (next_ref s, s\<lparr>heap := (heap s)(next_ref s := obj), next_ref := Suc (next_ref s)\<rparr>)"

text \<open>
  \<^verbatim>\<open>const x = await p; ...\<close>: a rejection of \<open>p\<close> is thrown on, a value is handed to
  the statements that follow.
\<close>

definition await :: "(error + 'a) \<times> state \<Rightarrow> ('a \<Rightarrow> state \<Rightarrow> (error + 'b) \<times> state) \<Rightarrow> (error + 'b) \<times> state" where
  "await p k = (case p of (Inl e, s) \<Rightarrow> (Inl e, s) | (Inr x, s) \<Rightarrow> k x s)"

text \<open>Assignment to a property of the object at reference \<open>r\<close>.\<close>

definition assign :: "nat \<Rightarrow> (UserInputs \<Rightarrow> UserInputs) \<Rightarrow> state \<Rightarrow> state" where
  "assign r f s = s\<lparr>heap := (heap s)(r := f (heap s r))\<rparr>"

section \<open>services/geminiService.ts\<close>

text \<open>
  The functions take the reference of the \<^verbatim>\<open>UserInputs\<close> object and read its
  properties from the heap. The model names of \<^verbatim>\<open>constants.ts\<close> are fixed strings of
  every request and are left out of it.
\<close>

definition getProductInfo :: "world \<Rightarrow> nat \<Rightarrow> state \<Rightarrow> (error + string option) \<times> state" where
  "getProductInfo w inputs s =
     (if truthy (productUrl (heap s inputs)) then
        await (issue (ai_generateContent w)
                 (GenerateContent (ProductInfoPrompt (render (productUrl (heap s inputs)))) None NoConfig) s)
          (\<lambda>response s1. (Inr (resp_text response), s1))
      else (Inr (Some (productDescription (heap s inputs))), s))"

definition generateAdCopy :: "world \<Rightarrow> string option \<Rightarrow> state \<Rightarrow> (error + json) \<times> state" where
  "generateAdCopy w productInfo s =
     await (issue (ai_generateContent w) (GenerateContent (AdCopyPrompt productInfo) None JsonArraySchema) s)
       (\<lambda>response s1.
          case js_JSON_parse (resp_text response) of
            Inr v \<Rightarrow> (Inr v, s1)
          | Inl e \<Rightarrow>
              (Inl (Error ''Failed to generate valid ad copy.''),
               console_log ''Failed to parse ad copy JSON:'' s1))"

text \<open>
  The \<^verbatim>\<open>responseSchema\<close> of that request: an array of objects whose required
  properties \<^verbatim>\<open>headline\<close>, \<^verbatim>\<open>primaryText\<close> and \<^verbatim>\<open>cta\<close> are strings.
\<close>

definition is_string_member :: "(nat list \<times> json) list \<Rightarrow> string \<Rightarrow> bool" where
  "is_string_member ms k = (case js_get ms (units k) of Some (JString t) \<Rightarrow> True | _ \<Rightarrow> False)"

fun is_AdCopy :: "json \<Rightarrow> bool" where
  "is_AdCopy (JObject ms) =
     (is_string_member ms ''headline'' \<and> is_string_member ms ''primaryText''
      \<and> is_string_member ms ''cta'')"
| "is_AdCopy v = False"

fun is_AdCopy_array :: "json \<Rightarrow> bool" where
  "is_AdCopy_array (JArray vs) = list_all is_AdCopy vs"
| "is_AdCopy_array v = False"

fun getAspectRatio :: "CreativeFormat \<Rightarrow> string" where
  "getAspectRatio SQUARE = ''1:1''"
| "getAspectRatio HORIZONTAL = ''16:9''"
| "getAspectRatio VERTICAL = ''9:16''"

definition VARIATION_PROMPTS :: "string list" where
  "VARIATION_PROMPTS =
     [''Focus on a clean, minimalist aesthetic with a bright, uncluttered background. The product should be the hero.'',
      ''Show the product in a vibrant, energetic lifestyle scene. Include a human element (e.g., hands using the product).'',
      ''Create a dynamic, eye-catching composition with bold colors and strong visual hierarchy. Emphasize a key feature.'']"

text \<open>The hook text and font that a prompt mentions when \<^verbatim>\<open>inputs.hookText\<close> is truthy.\<close>

definition overlay_of :: "UserInputs \<Rightarrow> overlay" where
  "overlay_of i = (if truthy (hookText i) then Some (render (hookText i), fontStyle i) else None)"

text \<open>
  \<^verbatim>\<open>response.candidates?.[0]?.content?.parts?.find(part => part.inlineData)\<close>.
\<close>

definition imagePart_of :: "GenerateContentResponse \<Rightarrow> Part option" where
  "imagePart_of response =
     (case candidates response of
        None \<Rightarrow> None
      | Some cs \<Rightarrow>
          (case cs of
             [] \<Rightarrow> None
           | c # _ \<Rightarrow>
               (case content c of
                  None \<Rightarrow> None
                | Some ct \<Rightarrow>
                    (case parts ct of
                       None \<Rightarrow> None
                     | Some ps \<Rightarrow> find (\<lambda>part. inlineData part \<noteq> None) ps))))"

text \<open>The data URL that the reducer pushes for a response, if it pushes one.\<close>

definition edited_image :: "GenerateContentResponse \<Rightarrow> string option" where
  "edited_image response =
     (case imagePart_of response of
        None \<Rightarrow> None
      | Some part \<Rightarrow>
          (case inlineData part of
             None \<Rightarrow> None
           | Some d \<Rightarrow>
               if truthy (inl_data d)
               then Some (''data:'' @ render (inl_mimeType d) @ '';base64,'' @ render (inl_data d))
               else None))"

text \<open>One step of \<^verbatim>\<open>responses.reduce\<close> in the image-editing workflow.\<close>

definition collect_image :: "string list \<times> state \<Rightarrow> GenerateContentResponse \<Rightarrow> string list \<times> state" where
  "collect_image acc response =
     (case acc of
        (urls, s) \<Rightarrow>
          (case edited_image response of
             Some u \<Rightarrow> (urls @ [u], s)
           | None \<Rightarrow>
               (urls, console_log ''An image editing variation failed to produce an image.'' s)))"

text \<open>\<^verbatim>\<open>responses.map\<close> of the text-to-image workflow: the first throw ends it.\<close>

fun image_urls :: "GenerateImagesResponse list \<Rightarrow> state \<Rightarrow> (error + string list) \<times> state" where
  "image_urls [] s = (Inr [], s)"
| "image_urls (res # rest) s =
     (case generatedImages res of
        None \<Rightarrow>
          (Inl (Error ''Image generation failed to produce an image. Please try a different prompt.''),
           console_log ''Image generation failed:'' s)
      | Some [] \<Rightarrow>
          (Inl (Error ''Image generation failed to produce an image. Please try a different prompt.''),
           console_log ''Image generation failed:'' s)
      | Some (g # _) \<Rightarrow>
          (case image g of
             None \<Rightarrow> (Inl (TypeError ''Cannot read properties of undefined (reading imageBytes)''), s)
           | Some im \<Rightarrow>
               await (image_urls rest s)
                 (\<lambda>urls s1. (Inr ((''data:image/jpeg;base64,'' @ render (imageBytes im)) # urls), s1))))"

definition generateImages :: "world \<Rightarrow> nat \<Rightarrow> string option \<Rightarrow> state \<Rightarrow> (error + string list) \<times> state" where
  "generateImages w inputs productInfo s =
     (let i = heap s inputs in
      case productImage i of
        Some img \<Rightarrow>
          (let imageEditPrompts =
                 map (\<lambda>variation. ImageEditPrompt variation productInfo (overlay_of i)) VARIATION_PROMPTS;
               imagePart = ProductImage (mimeType img) (data img)
           in case issue_all (ai_generateContent w)
                     (map (\<lambda>prompt. GenerateContent prompt (Some imagePart) ImageAndTextModalities)
                        imageEditPrompts) s of
                (promises, s1) \<Rightarrow>
                  await (Promise_all promises, s1)
                    (\<lambda>responses s2.
                       case foldl collect_image ([], s2) responses of
                         (successfulImages, s3) \<Rightarrow>
                           if length successfulImages = 0 then
                             (Inl (Error ''Image editing failed to produce any images. The model may be unable to process the request. Please try a different image or prompt.''),
                              s3)
                           else (Inr successfulImages, s3)))
      | None \<Rightarrow>
          (let imagePrompts =
                 map (\<lambda>variation. ImagePrompt productInfo variation (creativeFormat i = VERTICAL) (overlay_of i))
                   VARIATION_PROMPTS
           in case issue_all (ai_generateImages w)
                     (map (\<lambda>prompt. GenerateImages prompt (getAspectRatio (creativeFormat i))) imagePrompts) s of
                (promises, s1) \<Rightarrow>
                  await (Promise_all promises, s1) (\<lambda>responses s2. image_urls responses s2)))"

text \<open>
  The polling loop of \<^verbatim>\<open>generateVideos\<close>. It has no bound, so it is a partial
  function: \<^term>\<open>None\<close> is a loop that never ends.
\<close>

partial_function (option) pollOperation ::
  "world \<Rightarrow> Operation \<Rightarrow> state \<Rightarrow> ((error + Operation) \<times> state) option" where
  "pollOperation w operation s =
     (if op_done operation = Some True then Some (Inr operation, s)
      else
        (case issue (ai_getVideosOperation w) (GetVideosOperation operation)
                (s\<lparr>sleeps := sleeps s @ [10000]\<rparr>) of
           (Inl e, s1) \<Rightarrow> Some (Inl e, s1)
         | (Inr operation', s1) \<Rightarrow> pollOperation w operation' s1))"

declare pollOperation.simps [code]

text \<open>\<^verbatim>\<open>operation.response?.generatedVideos?.[0]?.video?.uri\<close>.\<close>

definition downloadLink_of :: "Operation \<Rightarrow> string option" where
  "downloadLink_of operation =
     (case op_response operation of
        None \<Rightarrow> None
      | Some r \<Rightarrow>
          (case generatedVideos r of
             None \<Rightarrow> None
           | Some gs \<Rightarrow>
               (case gs of
                  [] \<Rightarrow> None
                | g # _ \<Rightarrow> (case video g of None \<Rightarrow> None | Some v \<Rightarrow> uri v))))"

definition generateVideos ::
  "world \<Rightarrow> nat \<Rightarrow> string option \<Rightarrow> state \<Rightarrow> ((error + string list) \<times> state) option" where
  "generateVideos w inputs productInfo s =
     (let i = heap s inputs;
          videoPrompt = VideoPrompt (productImage i \<noteq> None) productInfo (overlay_of i)
      in case issue (ai_generateVideos w) (GenerateVideos videoPrompt (productImage i)) s of
           (Inl e, s1) \<Rightarrow> Some (Inl e, s1)
         | (Inr operation0, s1) \<Rightarrow>
             (case pollOperation w operation0 s1 of
                None \<Rightarrow> None
              | Some polled \<Rightarrow>
                  Some (await polled
                    (\<lambda>operation s2.
                       let downloadLink = downloadLink_of operation in
                       if \<not> truthy downloadLink then
                         (Inl (Error ''Video generation failed. The model did not return a video. Please try a different prompt or image.''),
                          console_log ''Video generation operation completed but returned no video URI.'' s2)
                       else
                         await (issue (browser_fetch w)
                                  (Fetch (render downloadLink @ ''&key='' @ render (API_KEY w))) s2)
                           (\<lambda>videoResponse s3.
                              if \<not> ok videoResponse then
                                (Inl (Error (''Failed to download the generated video: '' @ statusText videoResponse)),
                                 s3)
                              else
                                await (blob videoResponse, s3)
                                  (\<lambda>videoBlob s4.
                                     (Inr [createObjectURL w (fresh s4) videoBlob],
                                      s4\<lparr>fresh := Suc (fresh s4)\<rparr>)))))))"

definition proofreadText :: "world \<Rightarrow> string \<Rightarrow> string option \<Rightarrow> state \<Rightarrow> (error + string) \<times> state" where
  "proofreadText w textToProofread context s =
     (if textToProofread = [] \<or> trim textToProofread = [] then (Inr textToProofread, s)
      else
        (case await (issue (ai_generateContent w)
                       (GenerateContent (ProofreadTextPrompt context textToProofread) None NoConfig) s)
                (\<lambda>response s1.
                   case resp_text response of
                     None \<Rightarrow> (Inl (TypeError ''Cannot read properties of undefined (reading trim)''), s1)
                   | Some t \<Rightarrow> (Inr (strip_quotes (trim t)), s1)) of
           (Inl e, s1) \<Rightarrow>
             (Inr textToProofread,
              console_log ''Proofreading failed for text, returning original.'' s1)
         | (Inr t, s1) \<Rightarrow> (Inr t, s1)))"

definition proofreadAdCopy :: "world \<Rightarrow> json \<Rightarrow> string option \<Rightarrow> state \<Rightarrow> (error + json) \<times> state" where
  "proofreadAdCopy w adCopies context s =
     (if \<not> js_truthy adCopies then (Inr adCopies, s)
      else
        await (js_length adCopies, s)
          (\<lambda>n s0.
             if is_zero n then (Inr adCopies, s0)
             else
               (case await (issue (ai_generateContent w)
                              (GenerateContent (ProofreadAdCopyPrompt context adCopies) None JsonArraySchema) s0)
                       (\<lambda>response s1. (js_JSON_parse (resp_text response), s1)) of
                  (Inl e, s1) \<Rightarrow>
                    (Inr adCopies,
                     console_log ''Proofreading failed for ad copy, returning original.'' s1)
                | (Inr v, s1) \<Rightarrow> (Inr v, s1))))"

record AdCreative =
  creative_id :: string
  url :: string
  creative_type :: CreativeType
  copy :: "json option"
  variation :: string

definition variationNames :: "string list" where
  "variationNames = [''Minimalist'', ''Lifestyle'', ''Dynamic'']"

text \<open>
  Lines 275 to 296 of \<^verbatim>\<open>generateAdCreatives\<close>: the copy of the inputs, the
  proofreading of description and hook text, the product information and the ad copy.
  The result is the reference of \<^verbatim>\<open>correctedInputs\<close>, \<^verbatim>\<open>productInfo\<close> and
  \<^verbatim>\<open>finalAdCopy\<close>.
\<close>

definition resolveInputs ::
  "world \<Rightarrow> nat \<Rightarrow> state \<Rightarrow> (error + nat \<times> string option \<times> json) \<times> state" where
  "resolveInputs w inputs s =
     (case alloc (heap s inputs) s of
        (correctedInputs, s0) \<Rightarrow>
          await
            (if \<not> truthy (productUrl (heap s0 correctedInputs))
                \<and> productDescription (heap s0 correctedInputs) \<noteq> []
             then
               await (proofreadText w (productDescription (heap s0 correctedInputs))
                        (Some ''A product description for an online ad.'') s0)
                 (\<lambda>t s1. (Inr (), assign correctedInputs (\<lambda>obj. obj\<lparr>productDescription := t\<rparr>) s1))
             else (Inr (), s0))
            (\<lambda>_ s1.
               await (getProductInfo w correctedInputs s1)
                 (\<lambda>productInfo s2.
                    await
                      (if truthy (hookText (heap s2 correctedInputs)) then
                         await (proofreadText w (render (hookText (heap s2 correctedInputs))) productInfo s2)
                           (\<lambda>t s3. (Inr (), assign correctedInputs (\<lambda>obj. obj\<lparr>hookText := Some t\<rparr>) s3))
                       else (Inr (), s2))
                      (\<lambda>_ s3.
                         await (generateAdCopy w productInfo s3)
                           (\<lambda>initialAdCopy s4.
                              await (proofreadAdCopy w initialAdCopy productInfo s4)
                                (\<lambda>finalAdCopy s5.
                                   await (js_length finalAdCopy, s5)
                                     (\<lambda>n s6.
                                        if is_zero n then (Inl (Error ''Failed to generate ad copy.''), s6)
                                        else (Inr (correctedInputs, productInfo, finalAdCopy), s6))))))))"

text \<open>
  Lines 323 to 329: \<^verbatim>\<open>imageUrls.map((url, index) => ...)\<close>, from \<open>index\<close> on.
\<close>

fun imageCreatives ::
  "world \<Rightarrow> json \<Rightarrow> string list \<Rightarrow> nat \<Rightarrow> state \<Rightarrow> (error + AdCreative list) \<times> state" where
  "imageCreatives w finalAdCopy [] index s = (Inr [], s)"
| "imageCreatives w finalAdCopy (u # urls) index s =
     await (js_at_mod (js_rem_key w) finalAdCopy index, s\<lparr>fresh := Suc (fresh s)\<rparr>)
       (\<lambda>c s1.
          await (imageCreatives w finalAdCopy urls (Suc index) s1)
            (\<lambda>rest s2.
               (Inr (\<lparr>creative_id = randomUUID w (fresh s),
                      url = u,
                      creative_type = IMAGE,
                      copy = c,
                      variation =
                        ''Variation '' @ string_of_nat (index + 1) @ '': ''
                          @ variationNames ! (index mod length variationNames)\<rparr> # rest),
                s2)))"

definition generateAdCreatives ::
  "world \<Rightarrow> nat \<Rightarrow> state \<Rightarrow> ((error + AdCreative list) \<times> state) option" where
  "generateAdCreatives w inputs s =
     (case resolveInputs w inputs s of
        (Inl e, s1) \<Rightarrow> Some (Inl e, s1)
      | (Inr (correctedInputs, productInfo, finalAdCopy), s1) \<Rightarrow>
          if creativeType (heap s1 inputs) = VIDEO then
            (case generateVideos w correctedInputs productInfo s1 of
               None \<Rightarrow> None
             | Some generated \<Rightarrow>
                 Some (await generated
                   (\<lambda>videoUrls s2.
                      if length videoUrls > 0 then
                        await (js_first finalAdCopy, s2\<lparr>fresh := Suc (fresh s2)\<rparr>)
                          (\<lambda>c s3.
                             (Inr [\<lparr>creative_id = randomUUID w (fresh s2),
                                    url = hd videoUrls,
                                    creative_type = VIDEO,
                                    copy = c,
                                    variation = ''Video Creative''\<rparr>],
                              s3))
                      else (Inr [], s2))))
          else
            Some (await (generateImages w correctedInputs productInfo s1)
              (\<lambda>imageUrls s2.
                 if length imageUrls = 0 then (Inl (Error ''Failed to generate images.''), s2)
                 else imageCreatives w finalAdCopy imageUrls 0 s2)))"

section \<open>The form (components/CreativeForm.tsx)\<close>





section \<open>Requests and results that the statements name\<close>


definition edit_requests :: "state \<Rightarrow> nat \<Rightarrow> string option \<Rightarrow> ProductImage \<Rightarrow> request list" where
  "edit_requests s c productInfo img =
     map (\<lambda>variation.
            GenerateContent (ImageEditPrompt variation productInfo (overlay_of (heap s c)))
              (Some (ProductImage (mimeType img) (data img))) ImageAndTextModalities)
       VARIATION_PROMPTS"



text \<open>
  The record that \<^verbatim>\<open>imageUrls.map\<close> builds at position \<open>i\<close> when the ad copy is the
  non-empty array \<open>cs\<close>, counting positions from \<open>k\<close> and fresh values from \<open>f\<close>.
\<close>

definition creative_at :: "world \<Rightarrow> json list \<Rightarrow> string list \<Rightarrow> nat \<Rightarrow> nat \<Rightarrow> nat \<Rightarrow> AdCreative" where
  "creative_at w cs urls k f i =
     \<lparr>creative_id = randomUUID w (f + i),
      url = urls ! i,
      creative_type = IMAGE,
      copy = Some (cs ! ((k + i) mod length cs)),
      variation = ''Variation '' @ string_of_nat (k + i + 1) @ '': '' @ variationNames ! ((k + i) mod 3)\<rparr>"

section \<open>Example inputs and worlds\<close>

text \<open>
  A well-behaved world: proofreading returns the text it was given, the ad copy is a
  JSON array of three entries, every image request returns one image and the video
  operation is done at its first poll. The inputs are those of the end-to-end scenario
  of the specification, in a state that holds them at every reference. The witnesses
  below replace single answers of this world.
\<close>

definition copy_text :: string where
  \<open>copy_text =
     ''[{"headline":"A","primaryText":"B","cta":"C"},'' @
     '' {"headline":"D","primaryText":"E","cta":"F"},'' @
     '' {"headline":"G","primaryText":"H","cta":"I"}]''\<close>

definition adCopy :: "string \<Rightarrow> string \<Rightarrow> string \<Rightarrow> json" where
  "adCopy h p c =
     JObject [(units ''headline'', JString (units h)),
              (units ''primaryText'', JString (units p)),
              (units ''cta'', JString (units c))]"

definition copy_json :: json where
  "copy_json = JArray [adCopy ''A'' ''B'' ''C'', adCopy ''D'' ''E'' ''F'', adCopy ''G'' ''H'' ''I'']"

definition image_response :: "string \<Rightarrow> GenerateImagesResponse" where
  "image_response bytes = GenerateImagesResponse (Some [GeneratedImage (Some (Image (Some bytes)))])"

definition edit_response :: "string \<Rightarrow> GenerateContentResponse" where
  "edit_response bytes =
     GenerateContentResponse None
       (Some [Candidate (Some (Content (Some [Part None, Part (Some (InlineData (Some ''image/png'') (Some bytes)))])))])"

definition text_response :: "string \<Rightarrow> GenerateContentResponse" where
  "text_response t = GenerateContentResponse (Some t) None"

definition studio :: world where
  "studio =
     \<lparr>ai_generateContent =
        (\<lambda>n req. case req of
            GenerateContent (ProofreadTextPrompt c t) _ _ \<Rightarrow> Inr (text_response t)
          | GenerateContent (ProductInfoPrompt u) _ _ \<Rightarrow> Inr (text_response ''A cup.'')
          | GenerateContent (ImageEditPrompt v p h) _ _ \<Rightarrow> Inr (edit_response ''QUJD'')
          | GenerateContent _ _ _ \<Rightarrow> Inr (text_response copy_text)
          | _ \<Rightarrow> Inl (Rejected ''bad request'')),
      ai_generateImages = (\<lambda>n req. Inr (image_response ''QUJD'')),
      ai_generateVideos = (\<lambda>n req. Inr (Operation ''operations/1'' None None)),
      ai_getVideosOperation =
        (\<lambda>n req. Inr (Operation ''operations/1'' (Some True)
                         (Some (GenerateVideosResponse (Some [GeneratedVideo (Some (Video (Some ''https://v/1?alt=media'')))]))))),
      browser_fetch = (\<lambda>n req. Inr (FetchResponse True ''OK'' (Inr ''bytes''))),
      createObjectURL = (\<lambda>n b. ''blob:'' @ string_of_nat n),
      randomUUID = (\<lambda>n. ''uuid-'' @ string_of_nat n),
      API_KEY = Some ''KEY'',
      js_rem_key = (\<lambda>index v. units ''NaN'')\<rparr>"

definition example_inputs :: UserInputs where
  "example_inputs =
     \<lparr>productDescription = ''Reusable coffee cup'',
      productImage = None,
      productUrl = None,
      creativeFormat = SQUARE,
      creativeType = IMAGE,
      hookText = None,
      fontStyle = None\<rparr>"

definition state_of :: "UserInputs \<Rightarrow> state" where
  "state_of obj =
     \<lparr>heap = (\<lambda>r. obj), next_ref = 1, requests = [], sleeps = [], console = [], fresh = 0\<rparr>"

text \<open>
  The state in which the run on these inputs reaches its asset step; worlds in which
  the second text-to-image request returns no image, in which no text request gets
  through, and in which every text request is answered with an apology, with a text
  that opens with a quotation mark, with a quoted text and a line feed, and (the ad
  copy requests only) with an empty JSON object.
\<close>

definition second_image_missing :: world where
  "second_image_missing =
     studio\<lparr>ai_generateImages :=
       (\<lambda>n req. if n = 4 then Inr (GenerateImagesResponse (Some [])) else Inr (image_response ''QUJD''))\<rparr>"

definition resolved_state :: state where
  "resolved_state =
     \<lparr>heap = (\<lambda>r. example_inputs), next_ref = 2,
      requests =
        [GenerateContent
           (ProofreadTextPrompt (Some ''A product description for an online ad.'') ''Reusable coffee cup'')
           None NoConfig,
         GenerateContent (AdCopyPrompt (Some ''Reusable coffee cup'')) None JsonArraySchema,
         GenerateContent (ProofreadAdCopyPrompt (Some ''Reusable coffee cup'') copy_json) None JsonArraySchema],
      sleeps = [], console = [], fresh = 0\<rparr>"

definition unreachable :: world where
  "unreachable = studio\<lparr>ai_generateContent := (\<lambda>n req. Inl (Rejected ''Failed to fetch''))\<rparr>"

definition chatty :: world where
  "chatty = studio\<lparr>ai_generateContent := (\<lambda>n req. Inr (text_response ''Sorry, I cannot help.''))\<rparr>"

definition half_quoted :: world where
  "half_quoted = studio\<lparr>ai_generateContent := (\<lambda>n req. Inr (text_response (CHR 0x22 # ''The cup'')))\<rparr>"

definition quoted :: world where
  "quoted =
     studio\<lparr>ai_generateContent :=
       (\<lambda>n req. Inr (text_response ([CHR 0x22] @ ''The cup'' @ [CHR 0x22, CHR 0x0A])))\<rparr>"

definition shapeless :: world where
  "shapeless =
     studio\<lparr>ai_generateContent :=
       (\<lambda>n req. case req of
           GenerateContent (AdCopyPrompt p) _ _ \<Rightarrow> Inr (text_response ''{}'')
         | GenerateContent (ProofreadAdCopyPrompt c v) _ _ \<Rightarrow> Inr (text_response ''{}'')
         | _ \<Rightarrow> ai_generateContent studio n req)\<rparr>"







text \<open>Inputs with two typing errors, and a world whose proofreading mends them.\<close>

definition typo_inputs :: UserInputs where
  "typo_inputs = example_inputs\<lparr>productDescription := ''Reusable cofee cup'', hookText := Some ''50% of today''\<rparr>"

definition copy_editor :: world where
  "copy_editor =
     studio\<lparr>ai_generateContent :=
       (\<lambda>n req. case req of
           GenerateContent (ProofreadTextPrompt c t) _ _ \<Rightarrow>
             Inr (text_response (if t = ''Reusable cofee cup'' then ''Reusable coffee cup'' else ''50% off today''))
         | _ \<Rightarrow> ai_generateContent studio n req)\<rparr>"

text \<open>
  Inputs with a product image; worlds in which the second editing request is rejected,
  in which it is the only one to return an image, and in which none returns an image.
\<close>

definition image_inputs :: UserInputs where
  "image_inputs = example_inputs\<lparr>productImage := Some (ProductImage ''image/jpeg'' ''AAAA'')\<rparr>"

definition second_edit_rejected :: world where
  "second_edit_rejected =
     studio\<lparr>ai_generateContent :=
       (\<lambda>n req. if n = 4 then Inl (Rejected ''500 Internal Server Error'')
                 else ai_generateContent studio n req)\<rparr>"

definition second_edit_only :: world where
  "second_edit_only =
     studio\<lparr>ai_generateContent :=
       (\<lambda>n req. case req of
           GenerateContent (ImageEditPrompt v p h) _ _ \<Rightarrow>
             if n = 4 then Inr (edit_response ''QUJD'') else Inr (text_response ''I cannot edit this image.'')
         | _ \<Rightarrow> ai_generateContent studio n req)\<rparr>"

definition no_edit :: world where
  "no_edit =
     studio\<lparr>ai_generateContent :=
       (\<lambda>n req. case req of
           GenerateContent (ImageEditPrompt v p h) _ _ \<Rightarrow> Inr (text_response ''I cannot edit this image.'')
         | _ \<Rightarrow> ai_generateContent studio n req)\<rparr>"

definition resolved_image_state :: state where
  "resolved_image_state = resolved_state\<lparr>heap := (\<lambda>r. image_inputs)\<rparr>"



section \<open>Auxiliary facts\<close>

lemma issue_all_snd: "snd (issue_all api reqs s) = s\<lparr>requests := requests s @ reqs\<rparr>"
  by (induction reqs arbitrary: s) (simp_all add: issue_def case_prod_beta)

lemma issue_all_fst:
  "fst (issue_all api reqs s) = map (\<lambda>k. api (length (requests s) + k) (reqs ! k)) [0..<length reqs]"
proof (induction reqs arbitrary: s)
  case Nil
  then show ?case by simp
next
  case (Cons req reqs)
  have "map (\<lambda>k. api (length (requests s) + k) ((req # reqs) ! k)) [0..<length (req # reqs)]
        = api (length (requests s)) req
          # map (\<lambda>k. api (Suc (length (requests s)) + k) (reqs ! k)) [0..<length reqs]"
    by (simp add: upt_conv_Cons map_Suc_upt [symmetric] del: upt_Suc)
  with Cons show ?case
    by (simp add: issue_def case_prod_beta)
qed

lemma Promise_all_map_Inr: "Promise_all (map Inr rs) = Inr rs"
  by (induction rs) simp_all

lemma Promise_all_InrD: "Promise_all ps = Inr rs \<Longrightarrow> ps = map Inr rs"
proof (induction ps arbitrary: rs)
  case Nil
  then show ?case by simp
next
  case (Cons p ps)
  then show ?case
    by (cases p) (auto split: sum.splits)
qed

lemma Promise_all_Inr: "Promise_all ps = Inr rs \<longleftrightarrow> ps = map Inr rs"
  using Promise_all_InrD Promise_all_map_Inr by blast

lemma Promise_all_Inl: "(\<exists>e. Promise_all ps = Inl e) \<longleftrightarrow> (\<exists>p \<in> set ps. isl p)"
  by (induction ps rule: Promise_all.induct) (auto split: sum.splits)

lemma image_urls_fails:
  "\<exists>res \<in> set rs. generatedImages res = None \<or> generatedImages res = Some []
   \<Longrightarrow> \<exists>e s'. image_urls rs s = (Inl e, s')"
proof (induction rs)
  case Nil
  then show ?case by simp
next
  case (Cons r rs)
  show ?case
  proof (cases "generatedImages r = None \<or> generatedImages r = Some []")
    case True
    then show ?thesis by auto
  next
    case False
    with Cons.prems have "\<exists>res \<in> set rs. generatedImages res = None \<or> generatedImages res = Some []"
      by auto
    from Cons.IH [OF this] obtain e s' where "image_urls rs s = (Inl e, s')" by blast
    then show ?thesis
      by (auto simp: await_def split: option.splits list.splits)
  qed
qed

lemma await_requests_pair: "snd (await (Inl e, s) k) = s" "snd (await (Inr x, s) k) = snd (k x s)"
  by (simp_all add: await_def)

lemma image_urls_requests: "requests (snd (image_urls rs s)) = requests s"
proof (induction rs)
  case Nil
  then show ?case by simp
next
  case (Cons r rs)
  then show ?case
    by (cases "image_urls rs s"; cases "fst (image_urls rs s)")
       (auto simp: await_def console_log_def split: option.splits list.splits)
qed

lemma parse_copy_text: "JSON_parse copy_text = Some copy_json"
  by (simp add: JSON_parse_def copy_text_def copy_json_def adCopy_def units_def eval_nat_numeral skip_ws_def json_ws_def escape_unit_def)

lemma generateImages_text_fails:
  assumes "productImage (heap s c) = None"
    and "k < 3"
    and "ai_generateImages w (length (requests s) + k)
           (GenerateImages
              (ImagePrompt productInfo (VARIATION_PROMPTS ! k)
                 (creativeFormat (heap s c) = VERTICAL) (overlay_of (heap s c)))
              (getAspectRatio (creativeFormat (heap s c)))) = Inr res"
    and "generatedImages res = None \<or> generatedImages res = Some []"
  shows "\<exists>e s'. generateImages w c productInfo s = (Inl e, s')"
proof -
  let ?reqs = "map (\<lambda>prompt. GenerateImages prompt (getAspectRatio (creativeFormat (heap s c))))
       (map (\<lambda>variation. ImagePrompt productInfo variation
                        (creativeFormat (heap s c) = VERTICAL) (overlay_of (heap s c))) VARIATION_PROMPTS)"
  obtain ps s1 where i: "issue_all (ai_generateImages w) ?reqs s = (ps, s1)"
    by (cases "issue_all (ai_generateImages w) ?reqs s")
  have len: "length VARIATION_PROMPTS = 3"
    by (simp add: VARIATION_PROMPTS_def)
  have ps: "ps = map (\<lambda>k. ai_generateImages w (length (requests s) + k) (?reqs ! k)) [0..<length ?reqs]"
    using issue_all_fst [of "ai_generateImages w" ?reqs s] i by simp
  have pk: "ps ! k = Inr res"
    using assms(2,3) len by (simp add: ps)
  have lps: "length ps = 3"
    using len by (simp add: ps)
  show ?thesis
  proof (cases "Promise_all ps")
    case (Inl e)
    then show ?thesis
      using assms(1) i by (simp add: generateImages_def Let_def await_def)
  next
    case (Inr responses)
    then have "ps = map Inr responses"
      by (simp add: Promise_all_Inr)
    with pk lps assms(2) have "res \<in> set responses"
      by (auto simp: in_set_conv_nth)
    with assms(4) have "\<exists>e s'. image_urls responses s1 = (Inl e, s')"
      by (intro image_urls_fails) blast
    then show ?thesis
      using assms(1) i Inr by (simp add: generateImages_def Let_def await_def)
  qed
qed

lemma trim_example: "trim ''Reusable coffee cup'' = ''Reusable coffee cup''"
  by (simp add: trim_def js_whitespace_def)

lemma resolveInputs_example:
  assumes "ai_generateContent w = ai_generateContent studio"
  shows "resolveInputs w 0 (state_of example_inputs) =
           (Inr (1, Some ''Reusable coffee cup'', copy_json), resolved_state)"
proof -
  have h: "(\<lambda>r. x)(a := x) = (\<lambda>r. x)" for x :: UserInputs and a :: nat
    by auto
  have j: "js_truthy copy_json" "js_length copy_json = Inr (Some (JNumber 3 0))"
    by (simp_all add: copy_json_def)
  have z: "\<not> number_is_zero 3 0"
    by (simp add: number_is_zero_def)
  show ?thesis
    by (simp add: resolveInputs_def alloc_def state_of_def example_inputs_def truthy_def
        proofreadText_def trim_example issue_def await_def assms studio_def text_response_def
        strip_quotes_def assign_def getProductInfo_def generateAdCopy_def js_JSON_parse_def
        render_def parse_copy_text proofreadAdCopy_def j z resolved_state_def h)
qed

lemma parse_chatty: "JSON_parse ''Sorry, I cannot help.'' = None"
  by (simp add: JSON_parse_def eval_nat_numeral skip_ws_def json_ws_def parse_number_def is_digit_def)

lemma proofreadText_never_throws: "\<exists>t. fst (proofreadText w textToProofread context s) = Inr t"
  by (simp add: proofreadText_def await_def issue_def split: sum.splits option.splits)

lemma js_length_truthy: "js_truthy v \<Longrightarrow> \<exists>n. js_length v = Inr n"
  by (cases v) simp_all

lemma proofreadAdCopy_cases:
  "proofreadAdCopy w adCopies context s =
     (if \<not> js_truthy adCopies \<or> (\<exists>n. js_length adCopies = Inr n \<and> is_zero n)
      then (Inr adCopies, s)
      else
        (case ai_generateContent w (length (requests s))
                (GenerateContent (ProofreadAdCopyPrompt context adCopies) None JsonArraySchema) of
           Inl e \<Rightarrow>
             (Inr adCopies,
              console_log ''Proofreading failed for ad copy, returning original.''
                (s\<lparr>requests := requests s
                     @ [GenerateContent (ProofreadAdCopyPrompt context adCopies) None JsonArraySchema]\<rparr>))
         | Inr response \<Rightarrow>
             (case JSON_parse (render (resp_text response)) of
                None \<Rightarrow>
                  (Inr adCopies,
                   console_log ''Proofreading failed for ad copy, returning original.''
                     (s\<lparr>requests := requests s
                          @ [GenerateContent (ProofreadAdCopyPrompt context adCopies) None JsonArraySchema]\<rparr>))
              | Some v \<Rightarrow>
                  (Inr v,
                   s\<lparr>requests := requests s
                        @ [GenerateContent (ProofreadAdCopyPrompt context adCopies) None JsonArraySchema]\<rparr>))))"
proof (cases "js_truthy adCopies")
  case False
  then show ?thesis by (simp add: proofreadAdCopy_def)
next
  case True
  then obtain n where n: "js_length adCopies = Inr n"
    using js_length_truthy by blast
  show ?thesis
    using True n
    by (auto simp: proofreadAdCopy_def await_def issue_def js_JSON_parse_def
        split: sum.splits option.splits)
qed

lemma proofreadAdCopy_never_throws: "\<exists>v. fst (proofreadAdCopy w adCopies context s) = Inr v"
  by (simp add: proofreadAdCopy_cases split: sum.splits option.splits)

lemma trim_id: "t \<noteq> [] \<Longrightarrow> \<not> js_whitespace (hd t) \<Longrightarrow> \<not> js_whitespace (last t) \<Longrightarrow> trim t = t"
proof -
  assume t: "t \<noteq> []" and h: "\<not> js_whitespace (hd t)" and l: "\<not> js_whitespace (last t)"
  from t h have 1: "dropWhile js_whitespace t = t"
    by (cases t) simp_all
  from t l have 2: "dropWhile js_whitespace (rev t) = rev t"
    by (cases "rev t") (simp_all add: last_rev [symmetric] hd_rev)
  show ?thesis by (simp add: trim_def 1 2)
qed

lemma strip_quotes_pair: "strip_quotes (CHR 0x22 # m @ [CHR 0x22]) = m"
  by (simp add: strip_quotes_def)

lemma strip_quotes_none: "u = [] \<or> (hd u \<noteq> CHR 0x22 \<and> last u \<noteq> CHR 0x22) \<Longrightarrow> strip_quotes u = u"
  by (cases u) (auto simp: strip_quotes_def)

lemma strip_quotes_leading: "m = [] \<or> last m \<noteq> CHR 0x22 \<Longrightarrow> strip_quotes (CHR 0x22 # m) = m"
  by (auto simp: strip_quotes_def)

lemma strip_quotes_trailing: "m \<noteq> [] \<Longrightarrow> hd m \<noteq> CHR 0x22 \<Longrightarrow> strip_quotes (m @ [CHR 0x22]) = m"
  by (cases m) (auto simp: strip_quotes_def)

lemma parse_empty_object: "JSON_parse ''{}'' = Some (JObject [])"
  by (simp add: JSON_parse_def eval_nat_numeral skip_ws_def json_ws_def)

lemma proofreadText_result:
  "\<exists>t s'. proofreadText w textToProofread context s = (Inr t, s')
            \<and> heap s' = heap s \<and> next_ref s' = next_ref s"
  by (simp add: proofreadText_def await_def issue_def console_log_def split: sum.splits option.splits)

lemma generateAdCopy_cases:
  "generateAdCopy w productInfo s =
     (case ai_generateContent w (length (requests s))
             (GenerateContent (AdCopyPrompt productInfo) None JsonArraySchema) of
        Inl e \<Rightarrow> (Inl e, s\<lparr>requests := requests s @ [GenerateContent (AdCopyPrompt productInfo) None JsonArraySchema]\<rparr>)
      | Inr response \<Rightarrow>
          (case JSON_parse (render (resp_text response)) of
             None \<Rightarrow>
               (Inl (Error ''Failed to generate valid ad copy.''),
                console_log ''Failed to parse ad copy JSON:''
                  (s\<lparr>requests := requests s @ [GenerateContent (AdCopyPrompt productInfo) None JsonArraySchema]\<rparr>))
           | Some v \<Rightarrow>
               (Inr v, s\<lparr>requests := requests s @ [GenerateContent (AdCopyPrompt productInfo) None JsonArraySchema]\<rparr>)))"
  by (simp add: generateAdCopy_def await_def issue_def js_JSON_parse_def split: sum.splits option.splits)

lemma resolveInputs_copy_unparsable:
  assumes "\<And>n p. case ai_generateContent w n (GenerateContent (AdCopyPrompt p) None JsonArraySchema) of
                    Inl e \<Rightarrow> False
                  | Inr response \<Rightarrow> JSON_parse (render (resp_text response)) = None"
  shows "\<exists>e s'. resolveInputs w inputs s = (Inl e, s')
           \<and> (\<not> truthy (productUrl (heap s inputs)) \<longrightarrow> e = Error ''Failed to generate valid ad copy.'')"
proof -
  have copy: "\<exists>s'. generateAdCopy w p s3 = (Inl (Error ''Failed to generate valid ad copy.''), s')" for p s3
    using assms [of "length (requests s3)" p]
    by (simp add: generateAdCopy_cases split: sum.splits)
  obtain c s0 where a: "alloc (heap s inputs) s = (c, s0)"
    by (cases "alloc (heap s inputs) s")
  then have c: "heap s0 c = heap s inputs"
    by (auto simp: alloc_def)
  define step1 where "step1 =
     (if \<not> truthy (productUrl (heap s0 c)) \<and> productDescription (heap s0 c) \<noteq> []
      then await (proofreadText w (productDescription (heap s0 c))
                    (Some ''A product description for an online ad.'') s0)
             (\<lambda>t s1. (Inr (), assign c (\<lambda>obj. obj\<lparr>productDescription := t\<rparr>) s1))
      else (Inr (), s0))"
  obtain s1 where s1: "step1 = (Inr (), s1)" and u1: "productUrl (heap s1 c) = productUrl (heap s inputs)"
  proof (cases "\<not> truthy (productUrl (heap s0 c)) \<and> productDescription (heap s0 c) \<noteq> []")
    case True
    obtain t s' where "proofreadText w (productDescription (heap s0 c))
                    (Some ''A product description for an online ad.'') s0 = (Inr t, s')"
      and "heap s' = heap s0"
      using proofreadText_result by blast
    with True have "step1 = (Inr (), assign c (\<lambda>obj. obj\<lparr>productDescription := t\<rparr>) s')"
      by (simp add: step1_def await_def)
    moreover have "productUrl (heap (assign c (\<lambda>obj. obj\<lparr>productDescription := t\<rparr>) s') c)
                   = productUrl (heap s inputs)"
      using c \<open>heap s' = heap s0\<close> by (simp add: assign_def)
    ultimately show ?thesis
      using that by blast
  next
    case False
    then have "step1 = (Inr (), s0)"
      unfolding step1_def by (simp only: if_False)
    with that c show ?thesis
      by simp
  qed
  show ?thesis
  proof (cases "getProductInfo w c s1")
    case (Pair r s2)
    show ?thesis
    proof (cases r)
      case (Inl e)
      have "truthy (productUrl (heap s inputs))"
        using Pair Inl u1
        by (auto simp: getProductInfo_def await_def issue_def split: if_splits)
      with a s1 Pair Inl show ?thesis
        by (simp add: resolveInputs_def await_def step1_def [symmetric])
    next
      case (Inr productInfo)
      define step3 where "step3 =
        (if truthy (hookText (heap s2 c)) then
           await (proofreadText w (render (hookText (heap s2 c))) productInfo s2)
             (\<lambda>t s3. (Inr (), assign c (\<lambda>obj. obj\<lparr>hookText := Some t\<rparr>) s3))
         else (Inr (), s2))"
      obtain s3 where s3: "step3 = (Inr (), s3)"
      proof (cases "truthy (hookText (heap s2 c))")
        case True
        obtain t s' where "proofreadText w (render (hookText (heap s2 c))) productInfo s2 = (Inr t, s')"
          using proofreadText_result by blast
        with True have "step3 = (Inr (), assign c (\<lambda>obj. obj\<lparr>hookText := Some t\<rparr>) s')"
          by (simp add: step3_def await_def)
        with that show ?thesis by blast
      next
        case False
        then have "step3 = (Inr (), s2)"
          unfolding step3_def by (simp only: if_False)
        with that show ?thesis by blast
      qed
      obtain s4 where "generateAdCopy w productInfo s3 = (Inl (Error ''Failed to generate valid ad copy.''), s4)"
        using copy by blast
      with a s1 Pair Inr s3 show ?thesis
        by (simp add: resolveInputs_def await_def step1_def [symmetric] step3_def [symmetric])
    qed
  qed
qed

text \<open>The definitions that a run on concrete inputs unfolds.\<close>

lemmas run_defs =
  generateAdCreatives_def resolveInputs_def alloc_def assign_def await_def issue_def
  proofreadText_def proofreadAdCopy_cases getProductInfo_def generateAdCopy_cases
  generateImages_def generateVideos_def console_log_def truthy_def render_def
  overlay_of_def edited_image_def imagePart_of_def collect_image_def downloadLink_of_def
  VARIATION_PROMPTS_def variationNames_def units_def js_get_def Let_def

lemmas example_defs =
  state_of_def example_inputs_def studio_def text_response_def image_response_def
  edit_response_def

lemma imageCreatives_array:
  "cs \<noteq> [] \<Longrightarrow>
   imageCreatives w (JArray cs) urls k s =
     (Inr (map (creative_at w cs urls k (fresh s)) [0..<length urls]),
      s\<lparr>fresh := fresh s + length urls\<rparr>)"
proof (induction urls arbitrary: k s)
  case Nil
  then show ?case by simp
next
  case (Cons u urls)
  have shift: "map (creative_at w cs (u # urls) k (fresh s)) [Suc 0..<Suc (length urls)]
               = map (creative_at w cs urls (Suc k) (Suc (fresh s))) [0..<length urls]"
    by (simp add: map_Suc_upt [symmetric] creative_at_def del: upt_Suc)
  have eq: "map (creative_at w cs (u # urls) k (fresh s)) [0..<length (u # urls)]
        = creative_at w cs (u # urls) k (fresh s) 0
          # map (creative_at w cs urls (Suc k) (Suc (fresh s))) [0..<length urls]"
    using shift by (simp add: upt_conv_Cons del: upt_Suc)
  have "imageCreatives w (JArray cs) (u # urls) k s =
          (Inr (creative_at w cs (u # urls) k (fresh s) 0
                # map (creative_at w cs urls (Suc k) (Suc (fresh s))) [0..<length urls]),
           s\<lparr>fresh := fresh s + length (u # urls)\<rparr>)"
    using Cons.prems
    by (simp add: Cons.IH await_def variationNames_def creative_at_def [of w cs "u # urls"]
        del: upt_Suc)
  then show ?case
    by (simp only: eq)
qed


lemma pollOperation_frame:
  assumes "pollOperation w operation s = Some (r, s')"
  shows "heap s' = heap s \<and> next_ref s' = next_ref s \<and> fresh s' = fresh s \<and> console s' = console s"
proof -
  have "heap (snd (r, s')) = heap s \<and> next_ref (snd (r, s')) = next_ref s
        \<and> fresh (snd (r, s')) = fresh s \<and> console (snd (r, s')) = console s"
  proof (rule pollOperation.raw_induct
      [where P = "\<lambda>w operation s y. heap (snd y) = heap s \<and> next_ref (snd y) = next_ref s
        \<and> fresh (snd y) = fresh s \<and> console (snd y) = console s", OF _ assms])
    fix poll :: "world \<Rightarrow> Operation \<Rightarrow> state \<Rightarrow> ((error + Operation) \<times> state) option"
    fix w operation s y
    assume IH: "\<And>w operation s y. poll w operation s = Some y \<Longrightarrow>
                  heap (snd y) = heap s \<and> next_ref (snd y) = next_ref s
                  \<and> fresh (snd y) = fresh s \<and> console (snd y) = console s"
      and body: "(if op_done operation = Some True then Some (Inr operation, s)
          else case issue (ai_getVideosOperation w) (GetVideosOperation operation)
                      (s\<lparr>sleeps := sleeps s @ [10000]\<rparr>) of
                 (Inl e, s1) \<Rightarrow> Some (Inl e, s1)
               | (Inr operation', s1) \<Rightarrow> poll w operation' s1) = Some y"
    show "heap (snd y) = heap s \<and> next_ref (snd y) = next_ref s
          \<and> fresh (snd y) = fresh s \<and> console (snd y) = console s"
    proof (cases "op_done operation = Some True")
      case True
      with body show ?thesis by auto
    next
      case False
      show ?thesis
      proof (cases "ai_getVideosOperation w (length (requests s)) (GetVideosOperation operation)")
        case (Inl e)
        with body False show ?thesis by (auto simp: issue_def)
      next
        case (Inr o1)
        with body False have "poll w o1
          (s\<lparr>sleeps := sleeps s @ [10000], requests := requests s @ [GetVideosOperation operation]\<rparr>) = Some y"
          by (simp add: issue_def)
        from IH [OF this] show ?thesis by simp
      qed
    qed
  qed
  then show ?thesis by simp
qed






lemma await_snd:
  assumes "P (snd p)" and "\<And>x s1. P s1 \<Longrightarrow> P (snd (k x s1))"
  shows "P (snd (await p k))"
  using assms by (cases p; cases "fst p") (auto simp: await_def)

lemma issue_heap:
  "heap (snd (issue api req s)) = heap s" "next_ref (snd (issue api req s)) = next_ref s"
  by (simp_all add: issue_def)

lemma issue_all_heap:
  "heap (snd (issue_all api reqs s)) = heap s" "next_ref (snd (issue_all api reqs s)) = next_ref s"
  by (simp_all add: issue_all_snd)

lemma console_log_heap:
  "heap (console_log m s) = heap s" "next_ref (console_log m s) = next_ref s"
  by (simp_all add: console_log_def)

lemma proofreadText_heap:
  "heap (snd (proofreadText w t ctx s)) = heap s" "next_ref (snd (proofreadText w t ctx s)) = next_ref s"
  using proofreadText_result [of w t ctx s] by auto

lemma getProductInfo_heap:
  "heap (snd (getProductInfo w c s)) = heap s" "next_ref (snd (getProductInfo w c s)) = next_ref s"
  by (simp_all add: getProductInfo_def await_def issue_def split: sum.splits)

lemma generateAdCopy_heap:
  "heap (snd (generateAdCopy w p s)) = heap s" "next_ref (snd (generateAdCopy w p s)) = next_ref s"
  by (simp_all add: generateAdCopy_cases console_log_def split: sum.splits option.splits)

lemma proofreadAdCopy_heap:
  "heap (snd (proofreadAdCopy w v p s)) = heap s" "next_ref (snd (proofreadAdCopy w v p s)) = next_ref s"
  by (simp_all add: proofreadAdCopy_cases console_log_def split: sum.splits option.splits)

lemma image_urls_frame:
  "heap (snd (image_urls rs s)) = heap s \<and> next_ref (snd (image_urls rs s)) = next_ref s"
proof (induction rs)
  case Nil
  then show ?case by simp
next
  case (Cons r rs)
  then show ?case
    by (cases "image_urls rs s"; cases "fst (image_urls rs s)")
       (auto simp: await_def console_log_heap split: option.splits list.splits)
qed

lemma image_urls_heap:
  "heap (snd (image_urls rs s)) = heap s" "next_ref (snd (image_urls rs s)) = next_ref s"
  using image_urls_frame by simp_all

lemma collect_images_heap:
  "heap (snd (foldl collect_image (urls, s) rs)) = heap s
   \<and> next_ref (snd (foldl collect_image (urls, s) rs)) = next_ref s"
  by (induction rs arbitrary: urls s)
     (simp_all add: collect_image_def console_log_heap split: option.splits)

lemma generateImages_heap:
  "heap (snd (generateImages w c p s)) = heap s" "next_ref (snd (generateImages w c p s)) = next_ref s"
proof -
  have "heap (snd (generateImages w c p s)) = heap s \<and> next_ref (snd (generateImages w c p s)) = next_ref s"
  proof (cases "productImage (heap s c)")
    case None
    obtain ps s1 where i: "issue_all (ai_generateImages w)
        (map (\<lambda>prompt. GenerateImages prompt (getAspectRatio (creativeFormat (heap s c))))
           (map (\<lambda>variation. ImagePrompt p variation (creativeFormat (heap s c) = VERTICAL)
                   (overlay_of (heap s c))) VARIATION_PROMPTS)) s = (ps, s1)"
      by (cases "issue_all (ai_generateImages w)
        (map (\<lambda>prompt. GenerateImages prompt (getAspectRatio (creativeFormat (heap s c))))
           (map (\<lambda>variation. ImagePrompt p variation (creativeFormat (heap s c) = VERTICAL)
                   (overlay_of (heap s c))) VARIATION_PROMPTS)) s")
    then have "heap s1 = heap s" "next_ref s1 = next_ref s"
      using issue_all_heap [of "ai_generateImages w" _ s] by (metis snd_conv)+
    with None i show ?thesis
      by (cases "Promise_all ps") (simp_all add: generateImages_def Let_def await_def image_urls_heap)
  next
    case (Some img)
    obtain ps s1 where i: "issue_all (ai_generateContent w)
        (map (\<lambda>prompt. GenerateContent prompt (Some (ProductImage (mimeType img) (data img)))
                 ImageAndTextModalities)
           (map (\<lambda>variation. ImageEditPrompt variation p (overlay_of (heap s c))) VARIATION_PROMPTS)) s
        = (ps, s1)"
      by (cases "issue_all (ai_generateContent w)
        (map (\<lambda>prompt. GenerateContent prompt (Some (ProductImage (mimeType img) (data img)))
                 ImageAndTextModalities)
           (map (\<lambda>variation. ImageEditPrompt variation p (overlay_of (heap s c))) VARIATION_PROMPTS)) s")
    then have s1: "heap s1 = heap s" "next_ref s1 = next_ref s"
      using issue_all_heap [of "ai_generateContent w" _ s] by (metis snd_conv)+
    show ?thesis
    proof (cases "Promise_all ps")
      case (Inl e)
      with Some i s1 show ?thesis
        by (simp add: generateImages_def Let_def await_def)
    next
      case (Inr rs)
      obtain urls s3 where f: "foldl collect_image ([], s1) rs = (urls, s3)"
        by (cases "foldl collect_image ([], s1) rs")
      with collect_images_heap [of "[]" s1 rs] s1 have "heap s3 = heap s" "next_ref s3 = next_ref s"
        by simp_all
      with Some i Inr f show ?thesis
        by (simp add: generateImages_def Let_def await_def)
    qed
  qed
  then show "heap (snd (generateImages w c p s)) = heap s"
    and "next_ref (snd (generateImages w c p s)) = next_ref s"
    by simp_all
qed

lemma generateVideos_heap:
  assumes "generateVideos w c p s = Some (r, s')"
  shows "heap s' = heap s \<and> next_ref s' = next_ref s"
proof -
  let ?req = "GenerateVideos (VideoPrompt (productImage (heap s c) \<noteq> None) p (overlay_of (heap s c)))
       (productImage (heap s c))"
  let ?s1 = "s\<lparr>requests := requests s @ [?req]\<rparr>"
  show ?thesis
  proof (cases "ai_generateVideos w (length (requests s)) ?req")
    case (Inl e)
    with assms show ?thesis
      by (auto simp: generateVideos_def Let_def issue_def)
  next
    case (Inr operation0)
    with assms obtain polled where p: "pollOperation w operation0 ?s1 = Some polled"
      and r: "(r, s') = await polled
                    (\<lambda>operation s2.
                       let downloadLink = downloadLink_of operation in
                       if \<not> truthy downloadLink then
                         (Inl (Error ''Video generation failed. The model did not return a video. Please try a different prompt or image.''),
                          console_log ''Video generation operation completed but returned no video URI.'' s2)
                       else
                         await (issue (browser_fetch w)
                                  (Fetch (render downloadLink @ ''&key='' @ render (API_KEY w))) s2)
                           (\<lambda>videoResponse s3.
                              if \<not> ok videoResponse then
                                (Inl (Error (''Failed to download the generated video: '' @ statusText videoResponse)),
                                 s3)
                              else
                                await (blob videoResponse, s3)
                                  (\<lambda>videoBlob s4.
                                     (Inr [createObjectURL w (fresh s4) videoBlob],
                                      s4\<lparr>fresh := Suc (fresh s4)\<rparr>))))"
      by (auto simp: generateVideos_def Let_def issue_def split: option.splits)
    obtain q s2 where polled: "polled = (q, s2)" by (cases polled)
    with p pollOperation_frame [of w operation0 ?s1 q s2]
    have s2: "heap s2 = heap s" "next_ref s2 = next_ref s" by simp_all
    have "heap (snd (r, s')) = heap s \<and> next_ref (snd (r, s')) = next_ref s"
      unfolding r polled
      by (rule await_snd)
         (auto simp: s2 Let_def await_def issue_def console_log_heap split: sum.splits)
    then show ?thesis by simp
  qed
qed

lemma imageCreatives_heap:
  "heap (snd (imageCreatives w v urls k s)) = heap s"
  "next_ref (snd (imageCreatives w v urls k s)) = next_ref s"
proof -
  have "heap (snd (imageCreatives w v urls k s)) = heap s
        \<and> next_ref (snd (imageCreatives w v urls k s)) = next_ref s"
  proof (induction urls arbitrary: k s)
    case Nil
    then show ?case by simp
  next
    case (Cons u urls)
    show ?case
    proof (cases "js_at_mod (js_rem_key w) v k")
      case (Inl e)
      then show ?thesis by (simp add: await_def)
    next
      case (Inr c)
      with Cons [of "Suc k" "s\<lparr>fresh := Suc (fresh s)\<rparr>"] show ?thesis
        by (cases "imageCreatives w v urls (Suc k) (s\<lparr>fresh := Suc (fresh s)\<rparr>)";
            cases "fst (imageCreatives w v urls (Suc k) (s\<lparr>fresh := Suc (fresh s)\<rparr>))")
           (auto simp: await_def)
    qed
  qed
  then show "heap (snd (imageCreatives w v urls k s)) = heap s"
    and "next_ref (snd (imageCreatives w v urls k s)) = next_ref s"
    by simp_all
qed

lemmas heap_frame =
  issue_heap issue_all_heap console_log_heap proofreadText_heap getProductInfo_heap
  generateAdCopy_heap proofreadAdCopy_heap image_urls_heap generateImages_heap imageCreatives_heap

lemma resolveInputs_frame:
  assumes "a \<noteq> next_ref s"
  shows "heap (snd (resolveInputs w inputs s)) a = heap s a"
proof -
  let ?P = "\<lambda>s'. heap s' a = heap s a"
  have asg: "?P (assign (next_ref s) f s1)" if "?P s1" for s1 f
    using that assms by (simp add: assign_def)
  have if_snd: "?P (snd (if b then p else q))" if "?P (snd p)" "?P (snd q)" for b and p q :: "(error + unit) \<times> state"
    using that by simp
  show ?thesis
    unfolding resolveInputs_def alloc_def prod.case
    apply (rule await_snd [where P = ?P])
     apply (rule if_snd)
      apply (rule await_snd [where P = ?P])
       apply (simp add: assms heap_frame)
      apply (simp add: asg)
     apply (simp add: assms heap_frame)
    apply (rule await_snd [where P = ?P])
     apply (simp add: heap_frame)
    apply (rule await_snd [where P = ?P])
     apply (rule if_snd)
      apply (rule await_snd [where P = ?P])
       apply (simp add: heap_frame)
      apply (simp add: asg)
     apply (simp add: heap_frame)
    apply (rule await_snd [where P = ?P])
     apply (simp add: heap_frame)
    apply (rule await_snd [where P = ?P])
     apply (simp add: heap_frame)
    apply (rule await_snd [where P = ?P])
     apply (simp add: heap_frame)
    apply (simp add: heap_frame)
    done
qed

lemma await_fst:
  assumes "\<And>e. Q (Inl e)" and "\<And>x s1. Q (fst (k x s1))"
  shows "Q (fst (await p k))"
  using assms by (cases p; cases "fst p") (auto simp: await_def)

lemma resolveInputs_copy_ref:
  assumes "resolveInputs w inputs s = (Inr (c, productInfo, finalAdCopy), s1)"
  shows "c = next_ref s \<and> finalAdCopy \<noteq> JNull"
proof -
  let ?Q = "\<lambda>r. \<forall>c productInfo finalAdCopy.
              r = Inr (c, productInfo, finalAdCopy) \<longrightarrow> c = next_ref s \<and> finalAdCopy \<noteq> JNull"
  have "?Q (fst (resolveInputs w inputs s))"
    unfolding resolveInputs_def alloc_def prod.case
    apply (rule await_fst [where Q = ?Q], simp)
    apply (rule await_fst [where Q = ?Q], simp)
    apply (rule await_fst [where Q = ?Q], simp)
    apply (rule await_fst [where Q = ?Q], simp)
    apply (rule await_fst [where Q = ?Q], simp)
    apply (auto simp: await_def split: sum.splits)
    done
  with assms show ?thesis by simp
qed

lemma generateAdCreatives_frame:
  assumes "generateAdCreatives w inputs s = Some (r, s')" and "a \<noteq> next_ref s"
  shows "heap s' a = heap s a"
proof (cases "resolveInputs w inputs s")
  case (Pair r1 s1)
  then have s1: "heap s1 a = heap s a"
    using resolveInputs_frame [OF assms(2), of w inputs] by simp
  show ?thesis
  proof (cases r1)
    case (Inl e)
    with assms(1) Pair s1 show ?thesis
      by (simp add: generateAdCreatives_def)
  next
    case (Inr t)
    obtain c productInfo finalAdCopy where t: "t = (c, productInfo, finalAdCopy)"
      by (cases t)
    show ?thesis
    proof (cases "creativeType (heap s1 inputs) = VIDEO")
      case True
      with assms(1) Pair Inr t obtain generated where
        g: "generateVideos w c productInfo s1 = Some generated"
        and r: "(r, s') = await generated
                   (\<lambda>videoUrls s2.
                      if length videoUrls > 0 then
                        await (js_first finalAdCopy, s2\<lparr>fresh := Suc (fresh s2)\<rparr>)
                          (\<lambda>c s3.
                             (Inr [\<lparr>creative_id = randomUUID w (fresh s2),
                                    url = hd videoUrls,
                                    creative_type = VIDEO,
                                    copy = c,
                                    variation = ''Video Creative''\<rparr>],
                              s3))
                      else (Inr [], s2))"
        by (auto simp: generateAdCreatives_def split: option.splits)
      obtain q s2 where q: "generated = (q, s2)" by (cases generated)
      with g generateVideos_heap [of w c productInfo s1 q s2] s1 have s2: "heap s2 a = heap s a"
        by simp
      have "heap (snd (r, s')) a = heap s a"
        unfolding r q
        by (rule await_snd [where P = "\<lambda>s'. heap s' a = heap s a"])
           (auto simp: s2 await_def split: sum.splits)
      then show ?thesis by simp
    next
      case False
      with assms(1) Pair Inr t
      have r: "(r, s') = await (generateImages w c productInfo s1)
              (\<lambda>imageUrls s2.
                 if length imageUrls = 0 then (Inl (Error ''Failed to generate images.''), s2)
                 else imageCreatives w finalAdCopy imageUrls 0 s2)"
        by (simp add: generateAdCreatives_def)
      have "heap (snd (r, s')) a = heap s a"
        unfolding r
        by (rule await_snd [where P = "\<lambda>s'. heap s' a = heap s a"]) (simp_all add: s1 heap_frame)
      then show ?thesis by simp
    qed
  qed
qed

lemma copy_editor_run:
  "map_option (\<lambda>(r, s'). (productDescription (heap s' 1), hookText (heap s' 1)))
     (generateAdCreatives copy_editor 0 (state_of typo_inputs))
   = Some (''Reusable coffee cup'', Some ''50% off today'')"
proof -
  have t: "trim ''Reusable cofee cup'' = ''Reusable cofee cup''" "trim ''Reusable coffee cup'' = ''Reusable coffee cup''"
    "trim ''50% of today'' = ''50% of today''" "trim ''50% off today'' = ''50% off today''"
    by (simp_all add: trim_def js_whitespace_def)
  have z: "\<not> number_is_zero 3 0"
    by (simp add: number_is_zero_def)
  show ?thesis
    by (simp add: copy_editor_def typo_inputs_def run_defs example_defs t z strip_quotes_def
        parse_copy_text copy_json_def)
qed

lemma collect_images_urls:
  "fst (foldl collect_image (urls, s) rs) = urls @ List.map_filter edited_image rs"
  by (induction rs arbitrary: urls s)
     (simp_all add: collect_image_def List.map_filter_simps split: option.splits)

lemma js_at_mod_not_null: "v \<noteq> JNull \<Longrightarrow> \<exists>c. js_at_mod rem_key v index = Inr c"
  by (cases v) simp_all

lemma imageCreatives_urls:
  "finalAdCopy \<noteq> JNull \<Longrightarrow>
     \<exists>rs s'. imageCreatives w finalAdCopy urls k s = (Inr rs, s') \<and> map url rs = urls"
proof (induction urls arbitrary: k s)
  case Nil
  then show ?case by simp
next
  case (Cons u urls)
  from Cons.prems obtain c where c: "js_at_mod (js_rem_key w) finalAdCopy k = Inr c"
    using js_at_mod_not_null by blast
  from Cons.IH [OF Cons.prems, of "Suc k" "s\<lparr>fresh := Suc (fresh s)\<rparr>"]
  obtain rs s' where "imageCreatives w finalAdCopy urls (Suc k) (s\<lparr>fresh := Suc (fresh s)\<rparr>) = (Inr rs, s')"
    and "map url rs = urls"
    by blast
  with c show ?case
    by (simp add: await_def)
qed

lemma generateImages_edit:
  assumes "productImage (heap s c) = Some img"
  shows "fst (generateImages w c productInfo s) =
     (case Promise_all (map (\<lambda>j. ai_generateContent w (length (requests s) + j)
                                  (edit_requests s c productInfo img ! j)) [0..<3]) of
        Inl e \<Rightarrow> Inl e
      | Inr rs \<Rightarrow>
          if List.map_filter edited_image rs = [] then
            Inl (Error ''Image editing failed to produce any images. The model may be unable to process the request. Please try a different image or prompt.'')
          else Inr (List.map_filter edited_image rs))"
proof -
  let ?reqs = "edit_requests s c productInfo img"
  have len: "length ?reqs = 3"
    by (simp add: edit_requests_def VARIATION_PROMPTS_def)
  obtain ps s1 where i: "issue_all (ai_generateContent w) ?reqs s = (ps, s1)"
    by (cases "issue_all (ai_generateContent w) ?reqs s")
  have ps: "ps = map (\<lambda>j. ai_generateContent w (length (requests s) + j) (?reqs ! j)) [0..<3]"
    using issue_all_fst [of "ai_generateContent w" ?reqs s] i len by simp
  have g: "generateImages w c productInfo s =
            await (Promise_all ps, s1)
                    (\<lambda>responses s2.
                       case foldl collect_image ([], s2) responses of
                         (successfulImages, s3) \<Rightarrow>
                           if length successfulImages = 0 then
                             (Inl (Error ''Image editing failed to produce any images. The model may be unable to process the request. Please try a different image or prompt.''),
                              s3)
                           else (Inr successfulImages, s3))"
    using assms i
    by (simp add: generateImages_def Let_def edit_requests_def comp_def)
  show ?thesis
  proof (cases "Promise_all ps")
    case (Inl e)
    then show ?thesis
      by (simp add: g ps [symmetric] await_def)
  next
    case (Inr rs)
    obtain urls s3 where f: "foldl collect_image ([], s1) rs = (urls, s3)"
      by (cases "foldl collect_image ([], s1) rs")
    with collect_images_urls [of "[]" s1 rs] have "urls = List.map_filter edited_image rs"
      by simp
    with Inr f show ?thesis
      by (simp add: g ps [symmetric] await_def)
  qed
qed

lemma generateAdCreatives_images:
  assumes "resolveInputs w inputs s0 = (Inr (c, productInfo, finalAdCopy), s)"
    and "creativeType (heap s inputs) = IMAGE"
  shows "fst (generateImages w c productInfo s) = Inl e \<Longrightarrow>
           map_option fst (generateAdCreatives w inputs s0) = Some (Inl e)"
    and "fst (generateImages w c productInfo s) = Inr urls \<Longrightarrow> urls \<noteq> [] \<Longrightarrow>
           \<exists>records s'. generateAdCreatives w inputs s0 = Some (Inr records, s') \<and> map url records = urls"
proof -
  obtain r s2 where g: "generateImages w c productInfo s = (r, s2)"
    by (cases "generateImages w c productInfo s")
  show "map_option fst (generateAdCreatives w inputs s0) = Some (Inl e)"
    if "fst (generateImages w c productInfo s) = Inl e"
    using that assms g by (simp add: generateAdCreatives_def await_def)
  show "\<exists>records s'. generateAdCreatives w inputs s0 = Some (Inr records, s') \<and> map url records = urls"
    if "fst (generateImages w c productInfo s) = Inr urls" and "urls \<noteq> []"
  proof -
    have "finalAdCopy \<noteq> JNull"
      using resolveInputs_copy_ref [OF assms(1)] by simp
    from imageCreatives_urls [OF this, of w urls 0 s2]
    obtain records s' where "imageCreatives w finalAdCopy urls 0 s2 = (Inr records, s')"
      and "map url records = urls"
      by blast
    with that assms g show ?thesis
      by (simp add: generateAdCreatives_def await_def)
  qed
qed

lemma resolveInputs_plain:
  assumes "productDescription obj = ''Reusable coffee cup''"
    and "\<not> truthy (productUrl obj)" and "\<not> truthy (hookText obj)"
    and "\<And>n c t. ai_generateContent w n (GenerateContent (ProofreadTextPrompt c t) None NoConfig)
                  = Inr (text_response t)"
    and "\<And>n p. ai_generateContent w n (GenerateContent (AdCopyPrompt p) None JsonArraySchema)
                  = Inr (text_response copy_text)"
    and "\<And>n c v. ai_generateContent w n (GenerateContent (ProofreadAdCopyPrompt c v) None JsonArraySchema)
                  = Inr (text_response copy_text)"
  shows "resolveInputs w 0 (state_of obj) =
           (Inr (1, Some ''Reusable coffee cup'', copy_json), resolved_state\<lparr>heap := (\<lambda>r. obj)\<rparr>)"
proof -
  have h: "(\<lambda>r. obj)(a := obj\<lparr>productDescription := ''Reusable coffee cup''\<rparr>) = (\<lambda>r. obj)" for a :: nat
    using assms(1) by (metis (no_types) UserInputs.surjective UserInputs.update_convs(1) fun_upd_triv)
  have j: "js_truthy copy_json" "js_length copy_json = Inr (Some (JNumber 3 0))"
    by (simp_all add: copy_json_def)
  have z: "\<not> number_is_zero 3 0"
    by (simp add: number_is_zero_def)
  show ?thesis
    by (simp add: resolveInputs_def alloc_def state_of_def assms
        proofreadText_def trim_example issue_def await_def text_response_def
        strip_quotes_def assign_def getProductInfo_def generateAdCopy_def js_JSON_parse_def
        render_def parse_copy_text proofreadAdCopy_def j z resolved_state_def h)
qed








section \<open>Proofreading fails open\<close>

text \<open>
  Claim C1. Neither \<^verbatim>\<open>proofreadText\<close> nor \<^verbatim>\<open>proofreadAdCopy\<close> ever throws, for any
  text, any value passed as the ad copy list, any context and any behaviour of the
  service. When the call of the service is rejected, or its answer has no text to
  trim (for a text) or a text that \<^verbatim>\<open>JSON.parse\<close> rejects (for ad copy), the result
  is the original input.
\<close>

theorem C1_proofreading_fails_open:
  "(\<exists>t. fst (proofreadText w textToProofread context s) = Inr t)
   \<and> (\<exists>v. fst (proofreadAdCopy w adCopies context s) = Inr v)
   \<and> ((case ai_generateContent w (length (requests s))
               (GenerateContent (ProofreadTextPrompt context textToProofread) None NoConfig) of
          Inl e \<Rightarrow> True
        | Inr response \<Rightarrow> resp_text response = None)
       \<longrightarrow> fst (proofreadText w textToProofread context s) = Inr textToProofread)
   \<and> ((case ai_generateContent w (length (requests s))
               (GenerateContent (ProofreadAdCopyPrompt context adCopies) None JsonArraySchema) of
          Inl e \<Rightarrow> True
        | Inr response \<Rightarrow> JSON_parse (render (resp_text response)) = None)
       \<longrightarrow> fst (proofreadAdCopy w adCopies context s) = Inr adCopies)"
proof -
  have "fst (proofreadText w textToProofread context s) = Inr textToProofread"
    if "case ai_generateContent w (length (requests s))
               (GenerateContent (ProofreadTextPrompt context textToProofread) None NoConfig) of
          Inl e \<Rightarrow> True
        | Inr response \<Rightarrow> resp_text response = None"
    using that by (simp add: proofreadText_def await_def issue_def split: sum.splits)
  moreover have "fst (proofreadAdCopy w adCopies context s) = Inr adCopies"
    if "case ai_generateContent w (length (requests s))
               (GenerateContent (ProofreadAdCopyPrompt context adCopies) None JsonArraySchema) of
          Inl e \<Rightarrow> True
        | Inr response \<Rightarrow> JSON_parse (render (resp_text response)) = None"
    using that by (simp add: proofreadAdCopy_cases split: sum.splits)
  ultimately show ?thesis
    using proofreadText_never_throws proofreadAdCopy_never_throws by blast
qed

theorem C1_proofreading_fails_open_witness:
  "ai_generateContent unreachable 0
     (GenerateContent (ProofreadTextPrompt (Some ''An ad.'') ''Reusable cofee cup'') None NoConfig)
     = Inl (Rejected ''Failed to fetch'')
   \<and> fst (proofreadText unreachable ''Reusable cofee cup'' (Some ''An ad.'') (state_of example_inputs))
       = Inr ''Reusable cofee cup''
   \<and> ai_generateContent chatty 0
       (GenerateContent (ProofreadAdCopyPrompt (Some ''A cup.'') copy_json) None JsonArraySchema)
       = Inr (text_response ''Sorry, I cannot help.'')
   \<and> fst (proofreadAdCopy chatty copy_json (Some ''A cup.'') (state_of example_inputs)) = Inr copy_json"
  using
    C1_proofreading_fails_open [of unreachable "''Reusable cofee cup''" "Some ''An ad.''"
      "state_of example_inputs" copy_json]
    C1_proofreading_fails_open [of chatty "''Reusable cofee cup''" "Some ''A cup.''"
      "state_of example_inputs" copy_json]
  by (simp add: unreachable_def chatty_def state_of_def text_response_def parse_chatty render_def)

section \<open>The image-editing workflow tolerates missing images\<close>

text \<open>
  Claim C2, as stated, fails: of the three requests the first and the third return an
  image and the second is rejected, so exactly two of three return an image, and the
  run fails with the rejection, since \<^verbatim>\<open>Promise.all\<close> rejects when one of its promises
  does.
\<close>

theorem C2_counterexample:
  "edited_image (edit_response ''QUJD'') = Some ''data:image/png;base64,QUJD''
   \<and> map (\<lambda>j. ai_generateContent second_edit_rejected (3 + j)
                (edit_requests resolved_image_state 1 (Some ''Reusable coffee cup'')
                   (ProductImage ''image/jpeg'' ''AAAA'') ! j)) [0, 1, 2]
       = [Inr (edit_response ''QUJD''), Inl (Rejected ''500 Internal Server Error''),
          Inr (edit_response ''QUJD'')]
   \<and> map_option fst (generateAdCreatives second_edit_rejected 0 (state_of image_inputs))
       = Some (Inl (Rejected ''500 Internal Server Error''))"
proof -
  have t: "trim ''Reusable coffee cup'' = ''Reusable coffee cup''"
    by (rule trim_example)
  have z: "\<not> number_is_zero 3 0"
    by (simp add: number_is_zero_def)
  have 1: "edited_image (edit_response ''QUJD'') = Some ''data:image/png;base64,QUJD''"
    by (simp add: edited_image_def imagePart_of_def edit_response_def truthy_def render_def)
  have 2: "map (\<lambda>j. ai_generateContent second_edit_rejected (3 + j)
                (edit_requests resolved_image_state 1 (Some ''Reusable coffee cup'')
                   (ProductImage ''image/jpeg'' ''AAAA'') ! j)) [0, 1, 2]
       = [Inr (edit_response ''QUJD''), Inl (Rejected ''500 Internal Server Error''),
          Inr (edit_response ''QUJD'')]"
    by (simp add: second_edit_rejected_def studio_def edit_requests_def VARIATION_PROMPTS_def)
  have 3: "map_option fst (generateAdCreatives second_edit_rejected 0 (state_of image_inputs))
       = Some (Inl (Rejected ''500 Internal Server Error''))"
    by (simp add: second_edit_rejected_def image_inputs_def run_defs example_defs t z strip_quotes_def
        parse_copy_text copy_json_def)
  from 1 2 3 show ?thesis by simp
qed

text \<open>
  Claim C2, amended. Let a product image be supplied. When each of the three
  style-variation requests returns a response and \<open>k\<close> of the responses carry image
  data, then for \<open>k\<close> from 1 to 3 \<^verbatim>\<open>generateImages\<close> returns the \<open>k\<close> data URLs of
  these responses, in order, and the run returns exactly \<open>k\<close> creative records, one
  per URL; for \<open>k = 0\<close> \<^verbatim>\<open>generateImages\<close> raises its error and the run fails with
  it. When one of the three requests is rejected, the run fails, whatever the others
  return.
\<close>

theorem C2_image_edit_partial_tolerance:
  "productImage (heap s c) = Some img \<longrightarrow>
     ((length rs = 3
       \<and> (\<forall>j<3. ai_generateContent w (length (requests s) + j) (edit_requests s c productInfo img ! j)
                   = Inr (rs ! j))) \<longrightarrow>
        length (List.map_filter edited_image rs) = length (filter (\<lambda>r. edited_image r \<noteq> None) rs)
        \<and> (List.map_filter edited_image rs \<noteq> [] \<longrightarrow>
              fst (generateImages w c productInfo s) = Inr (List.map_filter edited_image rs)
              \<and> (\<forall>inputs s0 finalAdCopy.
                    resolveInputs w inputs s0 = (Inr (c, productInfo, finalAdCopy), s)
                    \<and> creativeType (heap s inputs) = IMAGE \<longrightarrow>
                    (\<exists>records s'. generateAdCreatives w inputs s0 = Some (Inr records, s')
                       \<and> map url records = List.map_filter edited_image rs)))
        \<and> (List.map_filter edited_image rs = [] \<longrightarrow>
              fst (generateImages w c productInfo s) =
                Inl (Error ''Image editing failed to produce any images. The model may be unable to process the request. Please try a different image or prompt.'')
              \<and> (\<forall>inputs s0 finalAdCopy.
                    resolveInputs w inputs s0 = (Inr (c, productInfo, finalAdCopy), s)
                    \<and> creativeType (heap s inputs) = IMAGE \<longrightarrow>
                    map_option fst (generateAdCreatives w inputs s0) =
                      Some (Inl (Error ''Image editing failed to produce any images. The model may be unable to process the request. Please try a different image or prompt.'')))))
     \<and> ((\<exists>j<3. isl (ai_generateContent w (length (requests s) + j) (edit_requests s c productInfo img ! j)))
          \<longrightarrow>
          (\<exists>e. fst (generateImages w c productInfo s) = Inl e
             \<and> (\<forall>inputs s0 finalAdCopy.
                   resolveInputs w inputs s0 = (Inr (c, productInfo, finalAdCopy), s)
                   \<and> creativeType (heap s inputs) = IMAGE \<longrightarrow>
                   map_option fst (generateAdCreatives w inputs s0) = Some (Inl e))))"
proof (intro impI conjI)
  assume img: "productImage (heap s c) = Some img"
  let ?ps = "map (\<lambda>j. ai_generateContent w (length (requests s) + j)
                                  (edit_requests s c productInfo img ! j)) [0..<3]"
  let ?urls = "List.map_filter edited_image rs"
  let ?err = "Error ''Image editing failed to produce any images. The model may be unable to process the request. Please try a different image or prompt.''"
  note g = generateImages_edit [OF img, of w productInfo]
  show "length ?urls = length (filter (\<lambda>r. edited_image r \<noteq> None) rs)"
    by (simp add: List.map_filter_def)
  {
    assume h: "length rs = 3
       \<and> (\<forall>j<3. ai_generateContent w (length (requests s) + j) (edit_requests s c productInfo img ! j)
                   = Inr (rs ! j))"
    then have "?ps = map Inr rs"
      by (auto simp: list_eq_iff_nth_eq)
    then have p: "Promise_all ?ps = Inr rs"
      by (simp only: Promise_all_map_Inr)
    {
      assume ne: "?urls \<noteq> []"
      with g p show 1: "fst (generateImages w c productInfo s) = Inr ?urls"
        by simp
      show "\<forall>inputs s0 finalAdCopy.
                    resolveInputs w inputs s0 = (Inr (c, productInfo, finalAdCopy), s)
                    \<and> creativeType (heap s inputs) = IMAGE \<longrightarrow>
                    (\<exists>records s'. generateAdCreatives w inputs s0 = Some (Inr records, s')
                       \<and> map url records = ?urls)"
        using generateAdCreatives_images(2) [OF _ _ 1 ne] by blast
    }
    {
      assume e: "?urls = []"
      with g p show 2: "fst (generateImages w c productInfo s) = Inl ?err"
        by simp
      show "\<forall>inputs s0 finalAdCopy.
                    resolveInputs w inputs s0 = (Inr (c, productInfo, finalAdCopy), s)
                    \<and> creativeType (heap s inputs) = IMAGE \<longrightarrow>
                    map_option fst (generateAdCreatives w inputs s0) = Some (Inl ?err)"
        using generateAdCreatives_images(1) [OF _ _ 2] by blast
    }
  }
  {
    assume "\<exists>j<3. isl (ai_generateContent w (length (requests s) + j) (edit_requests s c productInfo img ! j))"
    then have "\<exists>p \<in> set ?ps. isl p"
      by auto
    then obtain e where "Promise_all ?ps = Inl e"
      using Promise_all_Inl [of ?ps] by blast
    with g have 3: "fst (generateImages w c productInfo s) = Inl e"
      by simp
    show "\<exists>e. fst (generateImages w c productInfo s) = Inl e
             \<and> (\<forall>inputs s0 finalAdCopy.
                   resolveInputs w inputs s0 = (Inr (c, productInfo, finalAdCopy), s)
                   \<and> creativeType (heap s inputs) = IMAGE \<longrightarrow>
                   map_option fst (generateAdCreatives w inputs s0) = Some (Inl e))"
      using 3 generateAdCreatives_images(1) [OF _ _ 3] by blast
  }
qed

theorem C2_image_edit_partial_tolerance_witness:
  "map_option (map_sum id (map url) \<circ> fst) (generateAdCreatives second_edit_only 0 (state_of image_inputs))
     = Some (Inr [''data:image/png;base64,QUJD''])
   \<and> map_option fst (generateAdCreatives no_edit 0 (state_of image_inputs))
     = Some (Inl (Error ''Image editing failed to produce any images. The model may be unable to process the request. Please try a different image or prompt.''))"
proof -
  let ?s = resolved_image_state
  let ?info = "Some ''Reusable coffee cup''"
  let ?img = "ProductImage ''image/jpeg'' ''AAAA''"
  let ?no = "text_response ''I cannot edit this image.''"
  let ?yes = "edit_response ''QUJD''"
  have obj: "productDescription image_inputs = ''Reusable coffee cup''"
    "\<not> truthy (productUrl image_inputs)" "\<not> truthy (hookText image_inputs)"
    by (simp_all add: image_inputs_def example_inputs_def truthy_def)
  have r1: "resolveInputs second_edit_only 0 (state_of image_inputs) = (Inr (1, ?info, copy_json), ?s)"
    unfolding resolved_image_state_def
    by (rule resolveInputs_plain [OF obj]) (simp_all add: second_edit_only_def studio_def)
  have r2: "resolveInputs no_edit 0 (state_of image_inputs) = (Inr (1, ?info, copy_json), ?s)"
    unfolding resolved_image_state_def
    by (rule resolveInputs_plain [OF obj]) (simp_all add: no_edit_def studio_def)
  have img: "productImage (heap ?s 1) = Some ?img" and ty: "creativeType (heap ?s 0) = IMAGE"
    and len: "length (requests ?s) = 3"
    by (simp_all add: resolved_image_state_def resolved_state_def image_inputs_def example_inputs_def)
  have e: "edited_image ?yes = Some ''data:image/png;base64,QUJD''" "edited_image ?no = None"
    by (simp_all add: edited_image_def imagePart_of_def edit_response_def text_response_def
        truthy_def render_def)
  have a1: "length [?no, ?yes, ?no] = 3
       \<and> (\<forall>j<3. ai_generateContent second_edit_only (length (requests ?s) + j)
                    (edit_requests ?s 1 ?info ?img ! j) = Inr ([?no, ?yes, ?no] ! j))"
    by (auto simp: len second_edit_only_def edit_requests_def VARIATION_PROMPTS_def less_Suc_eq
        numeral_3_eq_3)
  have a2: "length [?no, ?no, ?no] = 3
       \<and> (\<forall>j<3. ai_generateContent no_edit (length (requests ?s) + j)
                    (edit_requests ?s 1 ?info ?img ! j) = Inr ([?no, ?no, ?no] ! j))"
    by (auto simp: len no_edit_def edit_requests_def VARIATION_PROMPTS_def less_Suc_eq
        numeral_3_eq_3)
  have u1: "List.map_filter edited_image [?no, ?yes, ?no] = [''data:image/png;base64,QUJD'']"
    and u2: "List.map_filter edited_image [?no, ?no, ?no] = []"
    by (simp_all add: List.map_filter_simps e)
  note T1 = C2_image_edit_partial_tolerance
    [of ?s 1 ?img "[?no, ?yes, ?no]" second_edit_only ?info, rule_format, OF img, THEN conjunct1,
     rule_format, OF a1, THEN conjunct2, THEN conjunct1, rule_format]
  note T2 = C2_image_edit_partial_tolerance
    [of ?s 1 ?img "[?no, ?no, ?no]" no_edit ?info, rule_format, OF img, THEN conjunct1,
     rule_format, OF a2, THEN conjunct2, THEN conjunct2, rule_format]
  from T1 u1 r1 ty
  obtain records s' where "generateAdCreatives second_edit_only 0 (state_of image_inputs) = Some (Inr records, s')"
    and "map url records = [''data:image/png;base64,QUJD'']"
    by (metis list.distinct(1))
  then have 1: "map_option (map_sum id (map url) \<circ> fst)
                  (generateAdCreatives second_edit_only 0 (state_of image_inputs))
                = Some (Inr [''data:image/png;base64,QUJD''])"
    by simp
  from T2 u2 r2 ty
  have 2: "map_option fst (generateAdCreatives no_edit 0 (state_of image_inputs))
     = Some (Inl (Error ''Image editing failed to produce any images. The model may be unable to process the request. Please try a different image or prompt.''))"
    by blast
  from 1 2 show ?thesis by simp
qed

section \<open>Ad copy generation and malformed answers\<close>

text \<open>
  Claim C3, as stated, fails: the answer \<^verbatim>\<open>{}\<close> is valid JSON and not an array of
  objects; \<^verbatim>\<open>generateAdCopy\<close> returns it without an error, and the run goes on to
  return three creatives whose copy is \<^verbatim>\<open>undefined\<close>.
\<close>

theorem C3_counterexample:
  "ai_generateContent shapeless 1
     (GenerateContent (AdCopyPrompt (Some ''Reusable coffee cup'')) None JsonArraySchema)
     = Inr (text_response ''{}'')
   \<and> JSON_parse ''{}'' = Some (JObject [])
   \<and> \<not> is_AdCopy_array (JObject [])
   \<and> fst (generateAdCopy shapeless (Some ''Reusable coffee cup'')
            (state_of example_inputs\<lparr>requests :=
               [GenerateContent
                  (ProofreadTextPrompt (Some ''A product description for an online ad.'') ''Reusable coffee cup'')
                  None NoConfig]\<rparr>))
       = Inr (JObject [])
   \<and> map_option (map_sum id (map copy) \<circ> fst) (generateAdCreatives shapeless 0 (state_of example_inputs))
       = Some (Inr [None, None, None])"
  by (simp add: shapeless_def run_defs example_defs parse_empty_object trim_example strip_quotes_def
      number_is_zero_def)

text \<open>
  Claim C3, amended. When the text of the answer is not valid JSON, that is when
  \<^verbatim>\<open>JSON.parse\<close> throws, \<^verbatim>\<open>generateAdCopy\<close> raises the generation error; a text that
  is valid JSON is returned as parsed, whatever its shape. When no ad copy request
  can get a parsable answer, the run fails, with the generation error unless the
  product information request failed before.
\<close>

theorem C3_generateAdCopy_invalid_json:
  "(ai_generateContent w (length (requests s))
      (GenerateContent (AdCopyPrompt productInfo) None JsonArraySchema) = Inr response \<longrightarrow>
      (JSON_parse (render (resp_text response)) = None \<longrightarrow>
         fst (generateAdCopy w productInfo s) = Inl (Error ''Failed to generate valid ad copy.''))
      \<and> (\<forall>v. JSON_parse (render (resp_text response)) = Some v \<longrightarrow>
             fst (generateAdCopy w productInfo s) = Inr v))
   \<and> ((\<forall>n p. case ai_generateContent w n (GenerateContent (AdCopyPrompt p) None JsonArraySchema) of
                 Inl e \<Rightarrow> False
               | Inr r \<Rightarrow> JSON_parse (render (resp_text r)) = None) \<longrightarrow>
        (\<exists>e s'. generateAdCreatives w inputs s = Some (Inl e, s')
           \<and> (\<not> truthy (productUrl (heap s inputs)) \<longrightarrow>
                 e = Error ''Failed to generate valid ad copy.'')))"
proof -
  have "\<exists>e s'. generateAdCreatives w inputs s = Some (Inl e, s')
           \<and> (\<not> truthy (productUrl (heap s inputs)) \<longrightarrow>
                 e = Error ''Failed to generate valid ad copy.'')"
    if "\<forall>n p. case ai_generateContent w n (GenerateContent (AdCopyPrompt p) None JsonArraySchema) of
                 Inl e \<Rightarrow> False
               | Inr r \<Rightarrow> JSON_parse (render (resp_text r)) = None"
  proof -
    from that resolveInputs_copy_unparsable [of w inputs s]
    obtain e s' where "resolveInputs w inputs s = (Inl e, s')"
      and "\<not> truthy (productUrl (heap s inputs)) \<longrightarrow> e = Error ''Failed to generate valid ad copy.''"
      by blast
    then show ?thesis
      by (simp add: generateAdCreatives_def)
  qed
  then show ?thesis
    by (simp add: generateAdCopy_cases)
qed

theorem C3_generateAdCopy_invalid_json_witness:
  "fst (generateAdCopy chatty (Some ''Reusable coffee cup'') (state_of example_inputs))
     = Inl (Error ''Failed to generate valid ad copy.'')
   \<and> fst (generateAdCopy studio (Some ''Reusable coffee cup'') (state_of example_inputs)) = Inr copy_json
   \<and> map_option fst (generateAdCreatives chatty 0 (state_of example_inputs))
       = Some (Inl (Error ''Failed to generate valid ad copy.''))"
proof -
  have c: "ai_generateContent chatty n req = Inr (text_response ''Sorry, I cannot help.'')" for n req
    by (simp add: chatty_def)
  have p: "JSON_parse (render (resp_text (text_response ''Sorry, I cannot help.''))) = None"
    by (simp add: text_response_def render_def parse_chatty)
  have s: "ai_generateContent studio n (GenerateContent (AdCopyPrompt q) None JsonArraySchema)
             = Inr (text_response copy_text)" for n q
    by (simp add: studio_def)
  have q: "JSON_parse (render (resp_text (text_response copy_text))) = Some copy_json"
    by (simp add: text_response_def render_def parse_copy_text)
  have u: "\<not> truthy (productUrl (heap (state_of example_inputs) 0))"
    by (simp add: state_of_def example_inputs_def truthy_def)
  from C3_generateAdCopy_invalid_json
         [of chatty "state_of example_inputs" "Some ''Reusable coffee cup''"
            "text_response ''Sorry, I cannot help.''" 0]
  have 1: "fst (generateAdCopy chatty (Some ''Reusable coffee cup'') (state_of example_inputs))
             = Inl (Error ''Failed to generate valid ad copy.'')"
    and "\<exists>e s'. generateAdCreatives chatty 0 (state_of example_inputs) = Some (Inl e, s')
           \<and> (\<not> truthy (productUrl (heap (state_of example_inputs) 0)) \<longrightarrow>
                 e = Error ''Failed to generate valid ad copy.'')"
    using c p by simp_all
  with u have 2: "map_option fst (generateAdCreatives chatty 0 (state_of example_inputs))
       = Some (Inl (Error ''Failed to generate valid ad copy.''))"
    by auto
  from C3_generateAdCopy_invalid_json
         [of studio "state_of example_inputs" "Some ''Reusable coffee cup''" "text_response copy_text"]
  have 3: "fst (generateAdCopy studio (Some ''Reusable coffee cup'') (state_of example_inputs)) = Inr copy_json"
    using s q by simp
  from 1 2 3 show ?thesis by simp
qed

section \<open>The text-to-image workflow is all or nothing\<close>

text \<open>
  Claim C4. When the inputs carry no product image and any one of the three
  text-to-image requests returns a response without images (\<open>generatedImages\<close>
  undefined or empty), \<^verbatim>\<open>generateImages\<close> raises an error, whatever the other two
  requests return, and a run of \<^verbatim>\<open>generateAdCreatives\<close> that has reached the image
  step fails with that error.
\<close>

theorem C4_text_to_image_all_or_nothing:
  assumes "productImage (heap s c) = None"
    and "k < 3"
    and "ai_generateImages w (length (requests s) + k)
           (GenerateImages
              (ImagePrompt productInfo (VARIATION_PROMPTS ! k)
                 (creativeFormat (heap s c) = VERTICAL) (overlay_of (heap s c)))
              (getAspectRatio (creativeFormat (heap s c)))) = Inr res"
    and "generatedImages res = None \<or> generatedImages res = Some []"
  shows "\<exists>e s'. generateImages w c productInfo s = (Inl e, s')
           \<and> (\<forall>inputs s0 finalAdCopy.
                 resolveInputs w inputs s0 = (Inr (c, productInfo, finalAdCopy), s)
                 \<and> creativeType (heap s inputs) = IMAGE
                 \<longrightarrow> generateAdCreatives w inputs s0 = Some (Inl e, s'))"
proof -
  from generateImages_text_fails [OF assms]
  obtain e s' where g: "generateImages w c productInfo s = (Inl e, s')"
    by blast
  have "generateAdCreatives w inputs s0 = Some (Inl e, s')"
    if "resolveInputs w inputs s0 = (Inr (c, productInfo, finalAdCopy), s)"
      and "creativeType (heap s inputs) = IMAGE"
    for inputs s0 finalAdCopy
    using that g by (simp add: generateAdCreatives_def await_def)
  with g show ?thesis by blast
qed

theorem C4_text_to_image_all_or_nothing_witness:
  "map_option fst (generateAdCreatives second_image_missing 0 (state_of example_inputs)) =
     Some (Inl (Error ''Image generation failed to produce an image. Please try a different prompt.''))"
proof -
  let ?w = second_image_missing
  have r: "resolveInputs ?w 0 (state_of example_inputs) =
             (Inr (1, Some ''Reusable coffee cup'', copy_json), resolved_state)"
    by (rule resolveInputs_example) (simp add: second_image_missing_def)
  have 1: "productImage (heap resolved_state 1) = None"
    by (simp add: resolved_state_def example_inputs_def)
  have 2: "(1::nat) < 3"
    by simp
  have 3: "ai_generateImages ?w (length (requests resolved_state) + 1)
             (GenerateImages
                (ImagePrompt (Some ''Reusable coffee cup'') (VARIATION_PROMPTS ! 1)
                   (creativeFormat (heap resolved_state 1) = VERTICAL) (overlay_of (heap resolved_state 1)))
                (getAspectRatio (creativeFormat (heap resolved_state 1))))
           = Inr (GenerateImagesResponse (Some []))"
    by (simp add: second_image_missing_def resolved_state_def)
  have 4: "generatedImages (GenerateImagesResponse (Some [])) = None
           \<or> generatedImages (GenerateImagesResponse (Some [])) = Some []"
    by simp
  from C4_text_to_image_all_or_nothing [OF 1 2 3 4]
  obtain e s' where g: "generateImages ?w 1 (Some ''Reusable coffee cup'') resolved_state = (Inl e, s')"
    and p: "\<forall>inputs s0 finalAdCopy.
              resolveInputs ?w inputs s0 = (Inr (1, Some ''Reusable coffee cup'', finalAdCopy), resolved_state)
              \<and> creativeType (heap resolved_state inputs) = IMAGE
              \<longrightarrow> generateAdCreatives ?w inputs s0 = Some (Inl e, s')"
    by blast
  have "creativeType (heap resolved_state 0) = IMAGE"
    by (simp add: resolved_state_def example_inputs_def)
  with p r have run: "generateAdCreatives ?w 0 (state_of example_inputs) = Some (Inl e, s')"
    by blast
  have "fst (generateImages ?w 1 (Some ''Reusable coffee cup'') resolved_state) =
          Inl (Error ''Image generation failed to produce an image. Please try a different prompt.'')"
    by (simp add: generateImages_def resolved_state_def example_inputs_def VARIATION_PROMPTS_def
        issue_def second_image_missing_def studio_def image_response_def await_def Let_def)
  with g have "e = Error ''Image generation failed to produce an image. Please try a different prompt.''"
    by simp
  with run show ?thesis by simp
qed

section \<open>Assembling image creatives\<close>

text \<open>
  Claim C5. For every list of image URLs and every non-empty array of ad copy of
  length \<open>m\<close>, the assembler returns one record per URL, in order; the record at
  index \<open>i\<close> carries the copy at index \<open>i mod m\<close> and the label made of \<open>i + 1\<close> and
  of the name at index \<open>i mod 3\<close> of the three variation names; and this list is what a
  run of \<^verbatim>\<open>generateAdCreatives\<close> returns when its image step produced these URLs.
  With four images and three copy entries the record at index 3 carries the copy at
  index 0.
\<close>

theorem C5_creative_assembler_cycling:
  "cs \<noteq> [] \<longrightarrow>
     (\<exists>rs s'. imageCreatives w (JArray cs) urls 0 s = (Inr rs, s')
        \<and> length rs = length urls
        \<and> (\<forall>i < length urls.
              url (rs ! i) = urls ! i
              \<and> copy (rs ! i) = Some (cs ! (i mod length cs))
              \<and> variation (rs ! i) =
                  ''Variation '' @ string_of_nat (i + 1) @ '': '' @ variationNames ! (i mod 3))
        \<and> (\<forall>inputs s0 c productInfo s1.
              resolveInputs w inputs s0 = (Inr (c, productInfo, JArray cs), s1)
              \<and> creativeType (heap s1 inputs) = IMAGE
              \<and> generateImages w c productInfo s1 = (Inr urls, s)
              \<and> urls \<noteq> []
              \<longrightarrow> generateAdCreatives w inputs s0 = Some (Inr rs, s')))
   \<and> variationNames = [''Minimalist'', ''Lifestyle'', ''Dynamic'']"
proof -
  have "\<exists>rs s'. imageCreatives w (JArray cs) urls 0 s = (Inr rs, s')
        \<and> length rs = length urls
        \<and> (\<forall>i < length urls.
              url (rs ! i) = urls ! i
              \<and> copy (rs ! i) = Some (cs ! (i mod length cs))
              \<and> variation (rs ! i) =
                  ''Variation '' @ string_of_nat (i + 1) @ '': '' @ variationNames ! (i mod 3))
        \<and> (\<forall>inputs s0 c productInfo s1.
              resolveInputs w inputs s0 = (Inr (c, productInfo, JArray cs), s1)
              \<and> creativeType (heap s1 inputs) = IMAGE
              \<and> generateImages w c productInfo s1 = (Inr urls, s)
              \<and> urls \<noteq> []
              \<longrightarrow> generateAdCreatives w inputs s0 = Some (Inr rs, s'))"
    if cs: "cs \<noteq> []"
  proof (intro exI conjI)
    show "imageCreatives w (JArray cs) urls 0 s =
            (Inr (map (creative_at w cs urls 0 (fresh s)) [0..<length urls]),
             s\<lparr>fresh := fresh s + length urls\<rparr>)"
      using cs by (rule imageCreatives_array)
    show "length (map (creative_at w cs urls 0 (fresh s)) [0..<length urls]) = length urls"
      by simp
    show "\<forall>i < length urls.
              url (map (creative_at w cs urls 0 (fresh s)) [0..<length urls] ! i) = urls ! i
              \<and> copy (map (creative_at w cs urls 0 (fresh s)) [0..<length urls] ! i)
                  = Some (cs ! (i mod length cs))
              \<and> variation (map (creative_at w cs urls 0 (fresh s)) [0..<length urls] ! i) =
                  ''Variation '' @ string_of_nat (i + 1) @ '': '' @ variationNames ! (i mod 3)"
      by (simp add: creative_at_def)
    show "\<forall>inputs s0 c productInfo s1.
              resolveInputs w inputs s0 = (Inr (c, productInfo, JArray cs), s1)
              \<and> creativeType (heap s1 inputs) = IMAGE
              \<and> generateImages w c productInfo s1 = (Inr urls, s)
              \<and> urls \<noteq> []
              \<longrightarrow> generateAdCreatives w inputs s0 =
                    Some (Inr (map (creative_at w cs urls 0 (fresh s)) [0..<length urls]),
                          s\<lparr>fresh := fresh s + length urls\<rparr>)"
      using cs by (simp add: generateAdCreatives_def await_def imageCreatives_array)
  qed
  then show ?thesis
    by (simp add: variationNames_def)
qed

theorem C5_creative_assembler_cycling_witness:
  "length (projr (fst (imageCreatives studio copy_json [''a'', ''b'', ''c'', ''d''] 0 (state_of example_inputs)))) = 4
   \<and> copy (projr (fst (imageCreatives studio copy_json [''a'', ''b'', ''c'', ''d''] 0 (state_of example_inputs))) ! 3)
       = Some (adCopy ''A'' ''B'' ''C'')
   \<and> variation (projr (fst (imageCreatives studio copy_json [''a'', ''b'', ''c'', ''d''] 0 (state_of example_inputs))) ! 3)
       = ''Variation 4: Minimalist''
   \<and> copy (projr (fst (imageCreatives studio copy_json [''a'', ''b'', ''c'', ''d''] 0 (state_of example_inputs))) ! 1)
       = Some (adCopy ''D'' ''E'' ''F'')"
proof -
  let ?cs = "[adCopy ''A'' ''B'' ''C'', adCopy ''D'' ''E'' ''F'', adCopy ''G'' ''H'' ''I'']"
  let ?urls = "[''a'', ''b'', ''c'', ''d'']"
  have "?cs \<noteq> []" by simp
  with C5_creative_assembler_cycling [of ?cs studio ?urls "state_of example_inputs"]
  obtain rs s' where r: "imageCreatives studio (JArray ?cs) ?urls 0 (state_of example_inputs) = (Inr rs, s')"
    and l: "length rs = length ?urls"
    and i: "\<forall>i < length ?urls.
              url (rs ! i) = ?urls ! i
              \<and> copy (rs ! i) = Some (?cs ! (i mod length ?cs))
              \<and> variation (rs ! i) =
                  ''Variation '' @ string_of_nat (i + 1) @ '': '' @ variationNames ! (i mod 3)"
    by blast
  have n: "string_of_nat 4 = ''4''"
    by (simp add: string_of_nat.simps)
  from i have "copy (rs ! 3) = Some (adCopy ''A'' ''B'' ''C'')" "copy (rs ! 1) = Some (adCopy ''D'' ''E'' ''F'')"
    "variation (rs ! 3) = ''Variation 4: Minimalist''"
    by (simp_all add: variationNames_def n)
  with r l show ?thesis
    by (simp add: copy_json_def)
qed

section \<open>The polling loop of the video workflow\<close>



section \<open>The default description\<close>




section \<open>What the text proofreading returns\<close>

text \<open>
  Claim C8, as stated, fails: the answer \<^verbatim>\<open>"The cup\<close> of the service, which starts
  with a quotation mark and does not end with one, is not wrapped in a pair of
  quotation marks, and \<^verbatim>\<open>proofreadText\<close> returns \<^verbatim>\<open>The cup\<close>, not the answer as it is.
\<close>

theorem C8_counterexample:
  "ai_generateContent half_quoted 0
     (GenerateContent (ProofreadTextPrompt (Some ''An ad.'') ''Teh cup'') None NoConfig)
     = Inr (text_response (CHR 0x22 # ''The cup''))
   \<and> fst (proofreadText half_quoted ''Teh cup'' (Some ''An ad.'') (state_of example_inputs))
       = Inr ''The cup''"
  by (simp add: half_quoted_def proofreadText_def trim_def js_whitespace_def issue_def await_def
      text_response_def strip_quotes_def state_of_def)

text \<open>
  Claim C8, amended. An empty or whitespace-only input is returned unchanged and no
  request is issued. For any other input, when the call returns the text \<open>t\<close>, one
  request is issued and the result is \<open>t\<close> trimmed of the white space around it, then
  without a quotation mark at its start, if there is one, and without a quotation
  mark at its end, if there is one, each on its own: a wrapping pair is stripped, a
  trimmed text with a quotation mark at neither end is returned as trimmed, and a
  single mark at one end is removed as well. Trimming leaves a text alone that
  neither starts nor ends with white space.
\<close>

theorem C8_proofreadText_result:
  "((textToProofread = [] \<or> trim textToProofread = []) \<longrightarrow>
      proofreadText w textToProofread context s = (Inr textToProofread, s))
   \<and> (textToProofread \<noteq> [] \<and> trim textToProofread \<noteq> []
       \<and> ai_generateContent w (length (requests s))
            (GenerateContent (ProofreadTextPrompt context textToProofread) None NoConfig) = Inr response
       \<and> resp_text response = Some t \<longrightarrow>
         requests (snd (proofreadText w textToProofread context s)) =
           requests s @ [GenerateContent (ProofreadTextPrompt context textToProofread) None NoConfig]
         \<and> fst (proofreadText w textToProofread context s) = Inr (strip_quotes (trim t))
         \<and> (\<forall>m. trim t = CHR 0x22 # m @ [CHR 0x22] \<longrightarrow>
               fst (proofreadText w textToProofread context s) = Inr m)
         \<and> (trim t = [] \<or> (hd (trim t) \<noteq> CHR 0x22 \<and> last (trim t) \<noteq> CHR 0x22) \<longrightarrow>
               fst (proofreadText w textToProofread context s) = Inr (trim t))
         \<and> (\<forall>m. trim t = CHR 0x22 # m \<and> (m = [] \<or> last m \<noteq> CHR 0x22) \<longrightarrow>
               fst (proofreadText w textToProofread context s) = Inr m)
         \<and> (\<forall>m. trim t = m @ [CHR 0x22] \<and> m \<noteq> [] \<and> hd m \<noteq> CHR 0x22 \<longrightarrow>
               fst (proofreadText w textToProofread context s) = Inr m)
         \<and> (t \<noteq> [] \<and> \<not> js_whitespace (hd t) \<and> \<not> js_whitespace (last t) \<longrightarrow> trim t = t))"
proof -
  have skip: "proofreadText w textToProofread context s = (Inr textToProofread, s)"
    if "textToProofread = [] \<or> trim textToProofread = []"
    using that by (auto simp: proofreadText_def)
  have call: "requests (snd (proofreadText w textToProofread context s)) =
           requests s @ [GenerateContent (ProofreadTextPrompt context textToProofread) None NoConfig]
         \<and> fst (proofreadText w textToProofread context s) = Inr (strip_quotes (trim t))"
    if "textToProofread \<noteq> []" "trim textToProofread \<noteq> []"
      "ai_generateContent w (length (requests s))
            (GenerateContent (ProofreadTextPrompt context textToProofread) None NoConfig) = Inr response"
      "resp_text response = Some t"
    using that by (simp add: proofreadText_def await_def issue_def)
  show ?thesis
    using skip call strip_quotes_pair strip_quotes_none strip_quotes_leading strip_quotes_trailing
      trim_id [of t]
    by (intro conjI impI allI) (simp_all (no_asm_simp))
qed

theorem C8_proofreadText_result_witness:
  "proofreadText quoted ''   '' (Some ''An ad.'') (state_of example_inputs)
     = (Inr ''   '', state_of example_inputs)
   \<and> ai_generateContent quoted 0
       (GenerateContent (ProofreadTextPrompt (Some ''An ad.'') ''Teh cup'') None NoConfig)
       = Inr (text_response ([CHR 0x22] @ ''The cup'' @ [CHR 0x22, CHR 0x0A]))
   \<and> fst (proofreadText quoted ''Teh cup'' (Some ''An ad.'') (state_of example_inputs)) = Inr ''The cup''
   \<and> fst (proofreadText half_quoted ''Teh cup'' (Some ''An ad.'') (state_of example_inputs)) = Inr ''The cup''"
proof -
  have w: "trim ''   '' = []" "trim ''Teh cup'' = ''Teh cup''"
    "trim ([CHR 0x22] @ ''The cup'' @ [CHR 0x22, CHR 0x0A]) = CHR 0x22 # ''The cup'' @ [CHR 0x22]"
    "trim (CHR 0x22 # ''The cup'') = CHR 0x22 # ''The cup''"
    by (simp_all add: trim_def js_whitespace_def)
  show ?thesis
    using w
      C8_proofreadText_result [of "''   ''" quoted "Some ''An ad.''" "state_of example_inputs"]
      C8_proofreadText_result [of "''Teh cup''" quoted "Some ''An ad.''" "state_of example_inputs"
        "text_response ([CHR 0x22] @ ''The cup'' @ [CHR 0x22, CHR 0x0A])"
        "[CHR 0x22] @ ''The cup'' @ [CHR 0x22, CHR 0x0A]"]
      C8_proofreadText_result [of "''Teh cup''" half_quoted "Some ''An ad.''" "state_of example_inputs"
        "text_response (CHR 0x22 # ''The cup'')" "CHR 0x22 # ''The cup''"]
    by (simp add: quoted_def half_quoted_def text_response_def state_of_def strip_quotes_def
        js_whitespace_def)
qed

section \<open>Aspect ratio of the text-to-image requests\<close>

text \<open>
  Claim C9. \<^verbatim>\<open>getAspectRatio\<close> maps the square format to \<^verbatim>\<open>1:1\<close>, the horizontal
  one to \<^verbatim>\<open>16:9\<close> and the vertical one to \<^verbatim>\<open>9:16\<close>; and when the inputs carry no
  product image, \<^verbatim>\<open>generateImages\<close> issues exactly three text-to-image requests, one
  per style variation in order, each with the aspect ratio of the requested format.
\<close>

theorem C9_aspect_ratio:
  "getAspectRatio SQUARE = ''1:1'' \<and> getAspectRatio HORIZONTAL = ''16:9''
   \<and> getAspectRatio VERTICAL = ''9:16''
   \<and> (productImage (heap s inputs) = None \<longrightarrow>
        requests (snd (generateImages w inputs productInfo s)) =
          requests s
          @ map (\<lambda>variation.
                   GenerateImages
                     (ImagePrompt productInfo variation
                        (creativeFormat (heap s inputs) = VERTICAL) (overlay_of (heap s inputs)))
                     (getAspectRatio (creativeFormat (heap s inputs))))
              VARIATION_PROMPTS
        \<and> length VARIATION_PROMPTS = 3)"
proof -
  have "length VARIATION_PROMPTS = 3"
    by (simp add: VARIATION_PROMPTS_def)
  moreover have "requests (snd (generateImages w inputs productInfo s)) =
          requests s
          @ map (\<lambda>variation.
                   GenerateImages
                     (ImagePrompt productInfo variation
                        (creativeFormat (heap s inputs) = VERTICAL) (overlay_of (heap s inputs)))
                     (getAspectRatio (creativeFormat (heap s inputs))))
              VARIATION_PROMPTS" if "productImage (heap s inputs) = None"
  proof -
    let ?reqs = "map (\<lambda>prompt. GenerateImages prompt (getAspectRatio (creativeFormat (heap s inputs))))
       (map (\<lambda>variation. ImagePrompt productInfo variation
                        (creativeFormat (heap s inputs) = VERTICAL) (overlay_of (heap s inputs))) VARIATION_PROMPTS)"
    obtain ps s1 where i: "issue_all (ai_generateImages w) ?reqs s = (ps, s1)"
      by (cases "issue_all (ai_generateImages w) ?reqs s")
    have s1: "requests s1 = requests s @ ?reqs"
      using issue_all_snd [of "ai_generateImages w" ?reqs s] i by simp
    have "requests (snd (generateImages w inputs productInfo s)) = requests s1"
      using that i
      by (cases "Promise_all ps") (simp_all add: generateImages_def Let_def image_urls_requests await_requests_pair)
    with s1 show ?thesis by (simp add: comp_def)
  qed
  ultimately show ?thesis by simp
qed

theorem C9_aspect_ratio_witness:
  "productImage (heap (state_of example_inputs) 0) = None
   \<and> requests (snd (generateImages studio 0 (Some ''Reusable coffee cup'') (state_of example_inputs))) =
       map (\<lambda>variation. GenerateImages (ImagePrompt (Some ''Reusable coffee cup'') variation False None) ''1:1'')
         VARIATION_PROMPTS"
  using C9_aspect_ratio [of "state_of example_inputs" 0 studio "Some ''Reusable coffee cup''"]
  by (simp add: state_of_def example_inputs_def overlay_of_def truthy_def)

section \<open>The caller's inputs are left alone\<close>

text \<open>
  Claim C10. \<^verbatim>\<open>generateAdCreatives\<close> copies the inputs into a new object and assigns
  the proofread description and hook text to the copy. For every object reference
  \<open>inputs\<close> that exists before the call, every world and every outcome of the call, a
  result or an error, the object at \<open>inputs\<close> is after the call what it was before,
  field by field, and so is every other object that existed before; the copy is at a
  reference that did not exist before.
\<close>

theorem C10_caller_inputs_unchanged:
  "inputs < next_ref s \<and> generateAdCreatives w inputs s = Some (r, s') \<longrightarrow>
     heap s' inputs = heap s inputs
     \<and> productDescription (heap s' inputs) = productDescription (heap s inputs)
     \<and> hookText (heap s' inputs) = hookText (heap s inputs)
     \<and> productUrl (heap s' inputs) = productUrl (heap s inputs)
     \<and> productImage (heap s' inputs) = productImage (heap s inputs)
     \<and> creativeFormat (heap s' inputs) = creativeFormat (heap s inputs)
     \<and> creativeType (heap s' inputs) = creativeType (heap s inputs)
     \<and> fontStyle (heap s' inputs) = fontStyle (heap s inputs)
     \<and> (\<forall>a < next_ref s. heap s' a = heap s a)
     \<and> (\<forall>c productInfo finalAdCopy s1.
           resolveInputs w inputs s = (Inr (c, productInfo, finalAdCopy), s1) \<longrightarrow>
             c = next_ref s \<and> c \<noteq> inputs)"
proof (intro impI)
  assume a: "inputs < next_ref s \<and> generateAdCreatives w inputs s = Some (r, s')"
  then have all: "\<forall>a < next_ref s. heap s' a = heap s a"
    using generateAdCreatives_frame [of w inputs s r s'] by auto
  with a have "heap s' inputs = heap s inputs" by blast
  moreover have "\<forall>c productInfo finalAdCopy s1.
           resolveInputs w inputs s = (Inr (c, productInfo, finalAdCopy), s1) \<longrightarrow>
             c = next_ref s \<and> c \<noteq> inputs"
    using a resolveInputs_copy_ref [of w inputs s] by blast
  ultimately show "heap s' inputs = heap s inputs
     \<and> productDescription (heap s' inputs) = productDescription (heap s inputs)
     \<and> hookText (heap s' inputs) = hookText (heap s inputs)
     \<and> productUrl (heap s' inputs) = productUrl (heap s inputs)
     \<and> productImage (heap s' inputs) = productImage (heap s inputs)
     \<and> creativeFormat (heap s' inputs) = creativeFormat (heap s inputs)
     \<and> creativeType (heap s' inputs) = creativeType (heap s inputs)
     \<and> fontStyle (heap s' inputs) = fontStyle (heap s inputs)
     \<and> (\<forall>a < next_ref s. heap s' a = heap s a)
     \<and> (\<forall>c productInfo finalAdCopy s1.
           resolveInputs w inputs s = (Inr (c, productInfo, finalAdCopy), s1) \<longrightarrow>
             c = next_ref s \<and> c \<noteq> inputs)"
    using all by simp
qed

theorem C10_caller_inputs_unchanged_witness:
  "map_option (\<lambda>(r, s'). (heap s' 0, productDescription (heap s' 1), hookText (heap s' 1)))
     (generateAdCreatives copy_editor 0 (state_of typo_inputs))
   = Some (typo_inputs, ''Reusable coffee cup'', Some ''50% off today'')"
proof -
  from copy_editor_run obtain r s' where
    run: "generateAdCreatives copy_editor 0 (state_of typo_inputs) = Some (r, s')"
    and c: "productDescription (heap s' 1) = ''Reusable coffee cup''" "hookText (heap s' 1) = Some ''50% off today''"
    by (cases "generateAdCreatives copy_editor 0 (state_of typo_inputs)") auto
  have "0 < next_ref (state_of typo_inputs)"
    by (simp add: state_of_def)
  with run C10_caller_inputs_unchanged [of 0 "state_of typo_inputs" copy_editor r s']
  have "heap s' 0 = heap (state_of typo_inputs) 0"
    by blast
  then have "heap s' 0 = typo_inputs"
    by (simp add: state_of_def)
  with run c show ?thesis by simp
qed

end
